theory Spec2Isabelle
  imports Main "HOL-Library.Multiset"
begin

section \<open>JavaScript values\<close>

text \<open>
  The worker (\<^verbatim>\<open>src/unnamed/part_001\<close>) is JavaScript. A JavaScript string is a
  sequence of UTF-16 code units, and \<^verbatim>\<open>length\<close>, \<^verbatim>\<open>indexOf\<close>, \<^verbatim>\<open>charAt\<close> and
  \<^verbatim>\<open>slice\<close> count code units, so a string is modelled as the list of its code units.
  An ASCII literal of the source is written \<open>js ''...''\<close>.
\<close>

type_synonym jsstring = "nat list"

definition js :: "string \<Rightarrow> jsstring" where
  "js s = map of_char s"

text \<open>
  A value produced by \<^verbatim>\<open>JSON.parse\<close> / \<^verbatim>\<open>response.json()\<close>. \<^verbatim>\<open>undefined\<close> (a missing
  property) is \<open>None\<close> of \<open>json option\<close>. Of a number the worker only ever tests whether it
  is zero, so numbers are integers here.
\<close>

datatype json =
    JNull
  | JBool bool
  | JNum int
  | JStr jsstring
  | JArr "json list"
  | JObj "(jsstring \<times> json) list"

text \<open>Truthiness of a value, as \<^verbatim>\<open>!x\<close>, \<^verbatim>\<open>x && y\<close> and \<^verbatim>\<open>x || y\<close> test it.\<close>

fun truthy :: "json option \<Rightarrow> bool" where
  "truthy None = False"
| "truthy (Some JNull) = False"
| "truthy (Some (JBool b)) = b"
| "truthy (Some (JNum n)) = (n \<noteq> 0)"
| "truthy (Some (JStr s)) = (s \<noteq> [])"
| "truthy (Some (JArr _)) = True"
| "truthy (Some (JObj _)) = True"

text \<open>
  White space as \<^verbatim>\<open>String.prototype.trim\<close>, \<^verbatim>\<open>parseInt\<close> and the regular expression
  class \<^verbatim>\<open>\s\<close> understand it: the WhiteSpace and LineTerminator code units.
\<close>

definition isWhiteSpace :: "nat \<Rightarrow> bool" where
  "isWhiteSpace c =
     (c \<in> set [9, 10, 11, 12, 13, 32, 160, 5760, 8232, 8233, 8239, 8287, 12288, 65279]
      \<or> (8192 \<le> c \<and> c \<le> 8202))"

definition trimEnd :: "jsstring \<Rightarrow> jsstring" where
  "trimEnd s = rev (dropWhile isWhiteSpace (rev s))"

definition trim :: "jsstring \<Rightarrow> jsstring" where
  "trim s = trimEnd (dropWhile isWhiteSpace s)"

subsection \<open>Numbers and their decimal strings\<close>

text \<open>
  \<^verbatim>\<open>String(n)\<close> of an integer \<open>n\<close>: its decimal digits, with a minus sign when negative.
  JavaScript numbers are doubles; the model computes with unbounded integers, which agrees
  with the source for every count the limiter can hold (and for every comparison with
  \<^verbatim>\<open>DAILY_LIMIT\<close>, whatever the size).
\<close>

fun digits :: "nat \<Rightarrow> jsstring" where
  "digits n = (if n < 10 then [48 + n] else digits (n div 10) @ [48 + n mod 10])"

declare digits.simps [simp del]

definition String_num :: "int \<Rightarrow> jsstring" where
  "String_num n = (if n < 0 then 45 # digits (nat (- n)) else digits (nat n))"

text \<open>
  \<^verbatim>\<open>parseInt(string)\<close> with no radix: skip leading white space, read a sign, switch to
  radix 16 after a \<^verbatim>\<open>0x\<close>/\<^verbatim>\<open>0X\<close> prefix, read the longest run of digits; \<open>None\<close> is
  \<^verbatim>\<open>NaN\<close>.
\<close>

definition digitValue :: "nat \<Rightarrow> nat \<Rightarrow> nat option" where
  "digitValue R c =
     (let v = (if 48 \<le> c \<and> c \<le> 57 then Some (c - 48)
               else if 97 \<le> c \<and> c \<le> 122 then Some (c - 87)
               else if 65 \<le> c \<and> c \<le> 90 then Some (c - 55)
               else None)
      in case v of None \<Rightarrow> None | Some d \<Rightarrow> if d < R then Some d else None)"

fun parseDigits :: "nat \<Rightarrow> nat \<Rightarrow> jsstring \<Rightarrow> nat" where
  "parseDigits R acc [] = acc"
| "parseDigits R acc (c # cs) =
     (case digitValue R c of None \<Rightarrow> acc | Some d \<Rightarrow> parseDigits R (acc * R + d) cs)"

definition parseInt :: "jsstring \<Rightarrow> int option" where
  "parseInt inputString =
     (let S = dropWhile isWhiteSpace inputString;
          sign = (if take 1 S = js ''-'' then - 1 else 1);
          S1 = (if take 1 S = js ''+'' \<or> take 1 S = js ''-'' then drop 1 S else S);
          hex = (take 2 S1 = js ''0x'' \<or> take 2 S1 = js ''0X'');
          R = (if hex then 16 else 10);
          Z = (if hex then drop 2 S1 else S1)
      in case Z of
           [] \<Rightarrow> None
         | c # cs \<Rightarrow> (case digitValue R c of
                        None \<Rightarrow> None
                      | Some d \<Rightarrow> Some (sign * int (parseDigits R 0 Z))))"

section \<open>Quota store and rate limiter\<close>

text \<open>
  \<^verbatim>\<open>env.RATE_LIMIT\<close> is a key-value namespace of the platform, modelled by its contract:
  an entry holds a string and the time (in seconds) at which it expires; \<^verbatim>\<open>get\<close> returns
  the string of an entry that has not expired and \<^verbatim>\<open>null\<close> (\<open>None\<close>) otherwise;
  \<^verbatim>\<open>put(key, value, {expirationTtl: t})\<close> replaces the entry by one that expires \<open>t\<close>
  seconds after the write. The clock is the argument \<open>now\<close>, and a read sees the latest
  write.
\<close>

record kv_entry =
  stored :: jsstring
  expiration :: nat

type_synonym kv_namespace = "jsstring \<rightharpoonup> kv_entry"

definition kv_get :: "kv_namespace \<Rightarrow> nat \<Rightarrow> jsstring \<Rightarrow> jsstring option" where
  "kv_get ns now key =
     (case ns key of
        None \<Rightarrow> None
      | Some e \<Rightarrow> if now < expiration e then Some (stored e) else None)"

definition kv_put :: "kv_namespace \<Rightarrow> nat \<Rightarrow> jsstring \<Rightarrow> jsstring \<Rightarrow> nat \<Rightarrow> kv_namespace" where
  "kv_put ns now key v expirationTtl = ns(key \<mapsto> \<lparr>stored = v, expiration = now + expirationTtl\<rparr>)"

definition DAILY_LIMIT :: int where
  "DAILY_LIMIT = 25"

definition DAY_IN_SECONDS :: nat where
  "DAY_IN_SECONDS = 86400"

record rate_check =
  allowed :: bool
  remaining :: int

text \<open>
  \<^verbatim>\<open>checkRateLimit\<close> (lines 34-44) suspends twice, at \<^verbatim>\<open>await env.RATE_LIMIT.get\<close> and at
  \<^verbatim>\<open>await env.RATE_LIMIT.put\<close>. The two halves are \<open>readCurrent\<close> (lines 35-36) and
  \<open>admitWith\<close> (lines 38-43); a call that nothing interrupts runs one after the other.
\<close>

definition rateKey :: "jsstring \<Rightarrow> jsstring" where
  "rateKey userId = js ''rate:'' @ userId"

definition readCurrent :: "kv_namespace \<Rightarrow> nat \<Rightarrow> jsstring \<Rightarrow> int" where
  "readCurrent RATE_LIMIT now userId =
     (case kv_get RATE_LIMIT now (rateKey userId) of
        None \<Rightarrow> 0
      | Some v \<Rightarrow> (case parseInt v of None \<Rightarrow> 0 | Some n \<Rightarrow> n))"

definition admitWith :: "int \<Rightarrow> kv_namespace \<Rightarrow> nat \<Rightarrow> jsstring \<Rightarrow> rate_check \<times> kv_namespace" where
  "admitWith current RATE_LIMIT now userId =
     (if current \<ge> DAILY_LIMIT then (\<lparr>allowed = False, remaining = 0\<rparr>, RATE_LIMIT)
      else (\<lparr>allowed = True, remaining = DAILY_LIMIT - current - 1\<rparr>,
            kv_put RATE_LIMIT now (rateKey userId) (String_num (current + 1)) DAY_IN_SECONDS))"

definition checkRateLimit :: "kv_namespace \<Rightarrow> nat \<Rightarrow> jsstring \<Rightarrow> rate_check \<times> kv_namespace" where
  "checkRateLimit RATE_LIMIT now userId =
     admitWith (readCurrent RATE_LIMIT now userId) RATE_LIMIT now userId"

section \<open>Abbreviation dictionary\<close>

text \<open>
  \<^verbatim>\<open>toUpperCase\<close>, \<^verbatim>\<open>toLowerCase\<close> and \<^verbatim>\<open>JSON.parse\<close> are functions of the JavaScript
  engine: Unicode case conversion and the JSON grammar are not part of the worker. They are
  arguments of the model, and every theorem holds for all of them. \<^verbatim>\<open>JSON.parse\<close> throws
  a SyntaxError where \<open>JSON_parse\<close> is \<open>None\<close>.
\<close>

record builtins =
  toUpperCase :: "jsstring \<Rightarrow> jsstring"
  toLowerCase :: "jsstring \<Rightarrow> jsstring"
  JSON_parse :: "jsstring \<Rightarrow> json option"

text \<open>What the source throws: \<^verbatim>\<open>new Error(message)\<close>, or an error of the engine.\<close>

datatype exn = Error jsstring | TypeError | SyntaxError | NetworkError

text \<open>\<^verbatim>\<open>ABBREV_DICT\<close> (lines 55-77); a text that is not ASCII is given by its code units.\<close>

definition ABBREV_DICT :: "(jsstring \<times> (jsstring \<times> jsstring) list) list" where
  "ABBREV_DICT = [
    (js ''JAN'',
      [(js ''fr'', js ''JANV''), (js ''de'', js ''JAN''), (js ''es'', js ''ENE''),
       (js ''it'', js ''GEN''), (js ''pt'', js ''JAN''), (js ''nl'', js ''JAN''),
       (js ''pl'', js ''STY''), (js ''cs'', js ''LED''), (js ''da'', js ''JAN''),
       (js ''sv'', js ''JAN''), (js ''nb'', js ''JAN''), (js ''fi'', js ''TAMMI''),
       (js ''ro'', js ''IAN''), (js ''hu'', js ''JAN''), (js ''tr'', js ''OCA''),
       (js ''ru'', [1071, 1053, 1042]), (js ''uk'', [1057, 1030, 1063]),
       (js ''ar'', [1610, 1606, 1575, 1610, 1585]), (js ''ja'', [49, 26376]),
       (js ''ko'', [49, 50900]), (js ''zh'', [49, 26376]), (js ''hi'', [2332, 2344]),
       (js ''th'', [3617, 46, 3588, 46]), (js ''vi'', js ''Th1''), (js ''id'', js ''JAN''),
       (js ''ms'', js ''JAN''), (js ''bg'', [1071, 1053, 1059]), (js ''hr'', js ''SIJ''),
       (js ''sk'', js ''JAN''), (js ''sl'', js ''JAN''), (js ''lt'', js ''SAU''),
       (js ''lv'', js ''JAN''), (js ''et'', js ''JAAN''), (js ''el'', [921, 913, 925]),
       (js ''he'', [1497, 1504, 1493])]),
    (js ''FEB'',
      [(js ''fr'', [70, 201, 86]), (js ''de'', js ''FEB''), (js ''es'', js ''FEB''),
       (js ''it'', js ''FEB''), (js ''pt'', js ''FEV''), (js ''nl'', js ''FEB''),
       (js ''pl'', js ''LUT''), (js ''cs'', [218, 78, 79]), (js ''da'', js ''FEB''),
       (js ''sv'', js ''FEB''), (js ''nb'', js ''FEB''), (js ''fi'', js ''HELMI''),
       (js ''ro'', js ''FEB''), (js ''hu'', js ''FEB''), (js ''tr'', [350, 85, 66]),
       (js ''ru'', [1060, 1045, 1042]), (js ''uk'', [1051, 1070, 1058]),
       (js ''ar'', [1601, 1576, 1585, 1575, 1610, 1585]), (js ''ja'', [50, 26376]),
       (js ''ko'', [50, 50900]), (js ''zh'', [50, 26376]), (js ''hi'', [2347, 2352]),
       (js ''th'', [3585, 46, 3614, 46]), (js ''vi'', js ''Th2''), (js ''id'', js ''FEB''),
       (js ''ms'', js ''FEB''), (js ''bg'', [1060, 1045, 1042]), (js ''hr'', js ''VEL''),
       (js ''sk'', js ''FEB''), (js ''sl'', js ''FEB''), (js ''lt'', js ''VAS''),
       (js ''lv'', js ''FEB''), (js ''et'', js ''VEEBR''), (js ''el'', [934, 917, 914]),
       (js ''he'', [1508, 1489, 1512])]),
    (js ''MAR'',
      [(js ''fr'', js ''MARS''), (js ''de'', [77, 196, 82]), (js ''es'', js ''MAR''),
       (js ''it'', js ''MAR''), (js ''pt'', js ''MAR''), (js ''nl'', js ''MRT''),
       (js ''pl'', js ''MAR''), (js ''cs'', [66, 344, 69]), (js ''da'', js ''MAR''),
       (js ''sv'', js ''MAR''), (js ''nb'', js ''MAR''), (js ''fi'', js ''MAALIS''),
       (js ''ro'', js ''MAR''), (js ''hu'', [77, 193, 82]), (js ''tr'', js ''MAR''),
       (js ''ru'', [1052, 1040, 1056]), (js ''uk'', [1041, 1045, 1056]),
       (js ''ar'', [1605, 1575, 1585, 1587]), (js ''ja'', [51, 26376]),
       (js ''ko'', [51, 50900]), (js ''zh'', [51, 26376]),
       (js ''hi'', [2350, 2366, 2352, 2381, 2330]), (js ''th'', [3617, 3637, 46, 3588, 46]),
       (js ''vi'', js ''Th3''), (js ''id'', js ''MAR''), (js ''ms'', js ''MAC''),
       (js ''bg'', [1052, 1040, 1056]), (js ''hr'', [79, 381, 85]), (js ''sk'', js ''MAR''),
       (js ''sl'', js ''MAR''), (js ''lt'', js ''KOV''), (js ''lv'', js ''MAR''),
       (js ''et'', [77, 196, 82, 84, 83]), (js ''el'', [924, 913, 929]),
       (js ''he'', [1502, 1512, 1509])]),
    (js ''APR'',
      [(js ''fr'', js ''AVR''), (js ''de'', js ''APR''), (js ''es'', js ''ABR''),
       (js ''it'', js ''APR''), (js ''pt'', js ''ABR''), (js ''nl'', js ''APR''),
       (js ''pl'', js ''KWI''), (js ''cs'', js ''DUB''), (js ''da'', js ''APR''),
       (js ''sv'', js ''APR''), (js ''nb'', js ''APR''), (js ''fi'', js ''HUHTI''),
       (js ''ro'', js ''APR''), (js ''hu'', [193, 80, 82]), (js ''tr'', [78, 304, 83]),
       (js ''ru'', [1040, 1055, 1056]), (js ''uk'', [1050, 1042, 1030]),
       (js ''ar'', [1571, 1576, 1585, 1610, 1604]), (js ''ja'', [52, 26376]),
       (js ''ko'', [52, 50900]), (js ''zh'', [52, 26376]),
       (js ''hi'', [2309, 2346, 2381, 2352, 2376]), (js ''th'', [3648, 3617, 46, 3618, 46]),
       (js ''vi'', js ''Th4''), (js ''id'', js ''APR''), (js ''ms'', js ''APR''),
       (js ''bg'', [1040, 1055, 1056]), (js ''hr'', js ''TRA''), (js ''sk'', js ''APR''),
       (js ''sl'', js ''APR''), (js ''lt'', js ''BAL''), (js ''lv'', js ''APR''),
       (js ''et'', js ''APR''), (js ''el'', [913, 928, 929]), (js ''he'', [1488, 1508, 1512])]),
    (js ''MAY'',
      [(js ''fr'', js ''MAI''), (js ''de'', js ''MAI''), (js ''es'', js ''MAY''),
       (js ''it'', js ''MAG''), (js ''pt'', js ''MAI''), (js ''nl'', js ''MEI''),
       (js ''pl'', js ''MAJ''), (js ''cs'', [75, 86, 282]), (js ''da'', js ''MAJ''),
       (js ''sv'', js ''MAJ''), (js ''nb'', js ''MAI''), (js ''fi'', js ''TOUKO''),
       (js ''ro'', js ''MAI''), (js ''hu'', [77, 193, 74]), (js ''tr'', js ''MAY''),
       (js ''ru'', [1052, 1040, 1049]), (js ''uk'', [1058, 1056, 1040]),
       (js ''ar'', [1605, 1575, 1610, 1608]), (js ''ja'', [53, 26376]),
       (js ''ko'', [53, 50900]), (js ''zh'', [53, 26376]), (js ''hi'', [2350, 2312]),
       (js ''th'', [3614, 46, 3588, 46]), (js ''vi'', js ''Th5''), (js ''id'', js ''MEI''),
       (js ''ms'', js ''MEI''), (js ''bg'', [1052, 1040, 1049]), (js ''hr'', js ''SVI''),
       (js ''sk'', [77, 193, 74]), (js ''sl'', js ''MAJ''), (js ''lt'', js ''GEG''),
       (js ''lv'', js ''MAI''), (js ''et'', js ''MAI''), (js ''el'', [924, 913, 938]),
       (js ''he'', [1502, 1488, 1497])]),
    (js ''JUN'',
      [(js ''fr'', js ''JUIN''), (js ''de'', js ''JUN''), (js ''es'', js ''JUN''),
       (js ''it'', js ''GIU''), (js ''pt'', js ''JUN''), (js ''nl'', js ''JUN''),
       (js ''pl'', js ''CZE''), (js ''cs'', [268, 69, 82]), (js ''da'', js ''JUN''),
       (js ''sv'', js ''JUN''), (js ''nb'', js ''JUN''), (js ''fi'', [75, 69, 83, 196]),
       (js ''ro'', js ''IUN''), (js ''hu'', [74, 218, 78]), (js ''tr'', js ''HAZ''),
       (js ''ru'', [1048, 1070, 1053]), (js ''uk'', [1063, 1045, 1056]),
       (js ''ar'', [1610, 1608, 1606, 1610, 1608]), (js ''ja'', [54, 26376]),
       (js ''ko'', [54, 50900]), (js ''zh'', [54, 26376]), (js ''hi'', [2332, 2370, 2344]),
       (js ''th'', [3617, 3636, 46, 3618, 46]), (js ''vi'', js ''Th6''),
       (js ''id'', js ''JUN''), (js ''ms'', js ''JUN''), (js ''bg'', [1070, 1053, 1048]),
       (js ''hr'', js ''LIP''), (js ''sk'', [74, 218, 78]), (js ''sl'', js ''JUN''),
       (js ''lt'', js ''BIR''), (js ''lv'', [74, 362, 78]), (js ''et'', js ''JUUNI''),
       (js ''el'', [921, 927, 933, 925]), (js ''he'', [1497, 1493, 1504])]),
    (js ''JUL'',
      [(js ''fr'', js ''JUIL''), (js ''de'', js ''JUL''), (js ''es'', js ''JUL''),
       (js ''it'', js ''LUG''), (js ''pt'', js ''JUL''), (js ''nl'', js ''JUL''),
       (js ''pl'', js ''LIP''), (js ''cs'', [268, 86, 67]), (js ''da'', js ''JUL''),
       (js ''sv'', js ''JUL''), (js ''nb'', js ''JUL''), (js ''fi'', [72, 69, 73, 78, 196]),
       (js ''ro'', js ''IUL''), (js ''hu'', [74, 218, 76]), (js ''tr'', js ''TEM''),
       (js ''ru'', [1048, 1070, 1051]), (js ''uk'', [1051, 1048, 1055]),
       (js ''ar'', [1610, 1608, 1604, 1610, 1608]), (js ''ja'', [55, 26376]),
       (js ''ko'', [55, 50900]), (js ''zh'', [55, 26376]), (js ''hi'', [2332, 2369, 2354]),
       (js ''th'', [3585, 46, 3588, 46]), (js ''vi'', js ''Th7''), (js ''id'', js ''JUL''),
       (js ''ms'', js ''JUL''), (js ''bg'', [1070, 1051, 1048]), (js ''hr'', js ''SRP''),
       (js ''sk'', [74, 218, 76]), (js ''sl'', js ''JUL''), (js ''lt'', js ''LIE''),
       (js ''lv'', [74, 362, 76]), (js ''et'', js ''JUULI''),
       (js ''el'', [921, 927, 933, 923]), (js ''he'', [1497, 1493, 1500])]),
    (js ''AUG'',
      [(js ''fr'', [65, 79, 219, 84]), (js ''de'', js ''AUG''), (js ''es'', js ''AGO''),
       (js ''it'', js ''AGO''), (js ''pt'', js ''AGO''), (js ''nl'', js ''AUG''),
       (js ''pl'', js ''SIE''), (js ''cs'', js ''SRP''), (js ''da'', js ''AUG''),
       (js ''sv'', js ''AUG''), (js ''nb'', js ''AUG''), (js ''fi'', js ''ELO''),
       (js ''ro'', js ''AUG''), (js ''hu'', js ''AUG''), (js ''tr'', [65, 286, 85]),
       (js ''ru'', [1040, 1042, 1043]), (js ''uk'', [1057, 1045, 1056]),
       (js ''ar'', [1571, 1594, 1587, 1591, 1587]), (js ''ja'', [56, 26376]),
       (js ''ko'', [56, 50900]), (js ''zh'', [56, 26376]), (js ''hi'', [2309, 2327]),
       (js ''th'', [3626, 46, 3588, 46]), (js ''vi'', js ''Th8''), (js ''id'', js ''AGT''),
       (js ''ms'', js ''OGS''), (js ''bg'', [1040, 1042, 1043]), (js ''hr'', js ''KOL''),
       (js ''sk'', js ''AUG''), (js ''sl'', js ''AVG''), (js ''lt'', js ''RGP''),
       (js ''lv'', js ''AUG''), (js ''et'', js ''AUG''), (js ''el'', [913, 933, 915]),
       (js ''he'', [1488, 1493, 1490])]),
    (js ''SEP'',
      [(js ''fr'', js ''SEPT''), (js ''de'', js ''SEP''), (js ''es'', js ''SEP''),
       (js ''it'', js ''SET''), (js ''pt'', js ''SET''), (js ''nl'', js ''SEP''),
       (js ''pl'', js ''WRZ''), (js ''cs'', [90, 193, 344]), (js ''da'', js ''SEP''),
       (js ''sv'', js ''SEP''), (js ''nb'', js ''SEP''), (js ''fi'', js ''SYYS''),
       (js ''ro'', js ''SEP''), (js ''hu'', js ''SZEP''), (js ''tr'', js ''EYL''),
       (js ''ru'', [1057, 1045, 1053]), (js ''uk'', [1042, 1045, 1056]),
       (js ''ar'', [1587, 1576, 1578, 1605, 1576, 1585]), (js ''ja'', [57, 26376]),
       (js ''ko'', [57, 50900]), (js ''zh'', [57, 26376]), (js ''hi'', [2360, 2367, 2340]),
       (js ''th'', [3585, 46, 3618, 46]), (js ''vi'', js ''Th9''), (js ''id'', js ''SEP''),
       (js ''ms'', js ''SEP''), (js ''bg'', [1057, 1045, 1055]), (js ''hr'', js ''RUJ''),
       (js ''sk'', js ''SEP''), (js ''sl'', js ''SEP''), (js ''lt'', js ''RGS''),
       (js ''lv'', js ''SEP''), (js ''et'', js ''SEPT''), (js ''el'', [931, 917, 928]),
       (js ''he'', [1505, 1508, 1496])]),
    (js ''OCT'',
      [(js ''fr'', js ''OCT''), (js ''de'', js ''OKT''), (js ''es'', js ''OCT''),
       (js ''it'', js ''OTT''), (js ''pt'', js ''OUT''), (js ''nl'', js ''OKT''),
       (js ''pl'', [80, 65, 377]), (js ''cs'', [344, 205, 74]), (js ''da'', js ''OKT''),
       (js ''sv'', js ''OKT''), (js ''nb'', js ''OKT''), (js ''fi'', js ''LOKA''),
       (js ''ro'', js ''OCT''), (js ''hu'', js ''OKT''), (js ''tr'', [69, 75, 304]),
       (js ''ru'', [1054, 1050, 1058]), (js ''uk'', [1046, 1054, 1042]),
       (js ''ar'', [1571, 1603, 1578, 1608, 1576, 1585]), (js ''ja'', [49, 48, 26376]),
       (js ''ko'', [49, 48, 50900]), (js ''zh'', [49, 48, 26376]),
       (js ''hi'', [2309, 2325, 2381, 2335, 2370]), (js ''th'', [3605, 46, 3588, 46]),
       (js ''vi'', js ''Th10''), (js ''id'', js ''OKT''), (js ''ms'', js ''OKT''),
       (js ''bg'', [1054, 1050, 1058]), (js ''hr'', js ''LIS''), (js ''sk'', js ''OKT''),
       (js ''sl'', js ''OKT''), (js ''lt'', js ''SPL''), (js ''lv'', js ''OKT''),
       (js ''et'', js ''OKT''), (js ''el'', [927, 922, 932]), (js ''he'', [1488, 1493, 1511])]),
    (js ''NOV'',
      [(js ''fr'', js ''NOV''), (js ''de'', js ''NOV''), (js ''es'', js ''NOV''),
       (js ''it'', js ''NOV''), (js ''pt'', js ''NOV''), (js ''nl'', js ''NOV''),
       (js ''pl'', js ''LIS''), (js ''cs'', js ''LIS''), (js ''da'', js ''NOV''),
       (js ''sv'', js ''NOV''), (js ''nb'', js ''NOV''), (js ''fi'', js ''MARRAS''),
       (js ''ro'', js ''NOI''), (js ''hu'', js ''NOV''), (js ''tr'', js ''KAS''),
       (js ''ru'', [1053, 1054, 1071]), (js ''uk'', [1051, 1048, 1057]),
       (js ''ar'', [1606, 1608, 1601, 1605, 1576, 1585]), (js ''ja'', [49, 49, 26376]),
       (js ''ko'', [49, 49, 50900]), (js ''zh'', [49, 49, 26376]), (js ''hi'', [2344, 2357]),
       (js ''th'', [3614, 46, 3618, 46]), (js ''vi'', js ''Th11''), (js ''id'', js ''NOV''),
       (js ''ms'', js ''NOV''), (js ''bg'', [1053, 1054, 1045]), (js ''hr'', js ''STU''),
       (js ''sk'', js ''NOV''), (js ''sl'', js ''NOV''), (js ''lt'', js ''LAP''),
       (js ''lv'', js ''NOV''), (js ''et'', js ''NOV''), (js ''el'', [925, 927, 917]),
       (js ''he'', [1504, 1493, 1489])]),
    (js ''DEC'',
      [(js ''fr'', [68, 201, 67]), (js ''de'', js ''DEZ''), (js ''es'', js ''DIC''),
       (js ''it'', js ''DIC''), (js ''pt'', js ''DEZ''), (js ''nl'', js ''DEC''),
       (js ''pl'', js ''GRU''), (js ''cs'', js ''PRO''), (js ''da'', js ''DEC''),
       (js ''sv'', js ''DEC''), (js ''nb'', js ''DES''), (js ''fi'', js ''JOULU''),
       (js ''ro'', js ''DEC''), (js ''hu'', js ''DEC''), (js ''tr'', js ''ARA''),
       (js ''ru'', [1044, 1045, 1050]), (js ''uk'', [1043, 1056, 1059]),
       (js ''ar'', [1583, 1610, 1587, 1605, 1576, 1585]), (js ''ja'', [49, 50, 26376]),
       (js ''ko'', [49, 50, 50900]), (js ''zh'', [49, 50, 26376]),
       (js ''hi'', [2342, 2367, 2360]), (js ''th'', [3608, 46, 3588, 46]),
       (js ''vi'', js ''Th12''), (js ''id'', js ''DES''), (js ''ms'', js ''DIS''),
       (js ''bg'', [1044, 1045, 1050]), (js ''hr'', js ''PRO''), (js ''sk'', js ''DEC''),
       (js ''sl'', js ''DEC''), (js ''lt'', js ''GRD''), (js ''lv'', js ''DEC''),
       (js ''et'', js ''DETS''), (js ''el'', [916, 917, 922]), (js ''he'', [1491, 1510, 1502])]),
    (js ''MON'',
      [(js ''fr'', js ''LUN''), (js ''de'', js ''MO''), (js ''es'', js ''LUN''),
       (js ''it'', js ''LUN''), (js ''pt'', js ''SEG''), (js ''nl'', js ''MA''),
       (js ''pl'', js ''PON''), (js ''cs'', js ''PO''), (js ''da'', js ''MAN''),
       (js ''sv'', [77, 197, 78]), (js ''nb'', js ''MAN''), (js ''fi'', js ''MA''),
       (js ''ro'', js ''LUN''), (js ''hu'', [72, 201, 84]), (js ''tr'', js ''PZT''),
       (js ''ru'', [1055, 1053]), (js ''uk'', [1055, 1053]), (js ''ar'', [1575, 1579, 1606]),
       (js ''ja'', [26376]), (js ''ko'', [50900]), (js ''zh'', [19968]),
       (js ''hi'', [2360, 2379, 2350]), (js ''th'', [3592, 46]), (js ''vi'', js ''T2''),
       (js ''id'', js ''SEN''), (js ''ms'', js ''ISN'')]),
    (js ''TUE'',
      [(js ''fr'', js ''MAR''), (js ''de'', js ''DI''), (js ''es'', js ''MAR''),
       (js ''it'', js ''MAR''), (js ''pt'', js ''TER''), (js ''nl'', js ''DI''),
       (js ''pl'', js ''WT''), (js ''cs'', [218, 84]), (js ''da'', js ''TIR''),
       (js ''sv'', js ''TIS''), (js ''nb'', js ''TIR''), (js ''fi'', js ''TI''),
       (js ''ro'', js ''MAR''), (js ''hu'', js ''KED''), (js ''tr'', js ''SAL''),
       (js ''ru'', [1042, 1058]), (js ''uk'', [1042, 1058]), (js ''ar'', [1579, 1604, 1575]),
       (js ''ja'', [28779]), (js ''ko'', [54868]), (js ''zh'', [20108]),
       (js ''hi'', [2350, 2306, 2327, 2354]), (js ''th'', [3629, 46]), (js ''vi'', js ''T3''),
       (js ''id'', js ''SEL''), (js ''ms'', js ''SEL'')]),
    (js ''WED'',
      [(js ''fr'', js ''MER''), (js ''de'', js ''MI''), (js ''es'', [77, 73, 201]),
       (js ''it'', js ''MER''), (js ''pt'', js ''QUA''), (js ''nl'', js ''WO''),
       (js ''pl'', [346, 82]), (js ''cs'', js ''ST''), (js ''da'', js ''ONS''),
       (js ''sv'', js ''ONS''), (js ''nb'', js ''ONS''), (js ''fi'', js ''KE''),
       (js ''ro'', js ''MIE''), (js ''hu'', js ''SZE''), (js ''tr'', [199, 65, 82]),
       (js ''ru'', [1057, 1056]), (js ''uk'', [1057, 1056]), (js ''ar'', [1571, 1585, 1576]),
       (js ''ja'', [27700]), (js ''ko'', [49688]), (js ''zh'', [19977]),
       (js ''hi'', [2348, 2369, 2343]), (js ''th'', [3614, 46]), (js ''vi'', js ''T4''),
       (js ''id'', js ''RAB''), (js ''ms'', js ''RAB'')]),
    (js ''THU'',
      [(js ''fr'', js ''JEU''), (js ''de'', js ''DO''), (js ''es'', js ''JUE''),
       (js ''it'', js ''GIO''), (js ''pt'', js ''QUI''), (js ''nl'', js ''DO''),
       (js ''pl'', js ''CZW''), (js ''cs'', [268, 84]), (js ''da'', js ''TOR''),
       (js ''sv'', js ''TOR''), (js ''nb'', js ''TOR''), (js ''fi'', js ''TO''),
       (js ''ro'', js ''JOI''), (js ''hu'', [67, 83, 220]), (js ''tr'', js ''PER''),
       (js ''ru'', [1063, 1058]), (js ''uk'', [1063, 1058]), (js ''ar'', [1582, 1605, 1610]),
       (js ''ja'', [26408]), (js ''ko'', [47785]), (js ''zh'', [22235]),
       (js ''hi'', [2327, 2369, 2352, 2369]), (js ''th'', [3614, 3620, 46]),
       (js ''vi'', js ''T5''), (js ''id'', js ''KAM''), (js ''ms'', js ''KHA'')]),
    (js ''FRI'',
      [(js ''fr'', js ''VEN''), (js ''de'', js ''FR''), (js ''es'', js ''VIE''),
       (js ''it'', js ''VEN''), (js ''pt'', js ''SEX''), (js ''nl'', js ''VR''),
       (js ''pl'', js ''PT''), (js ''cs'', [80, 193]), (js ''da'', js ''FRE''),
       (js ''sv'', js ''FRE''), (js ''nb'', js ''FRE''), (js ''fi'', js ''PE''),
       (js ''ro'', js ''VIN''), (js ''hu'', [80, 201, 78]), (js ''tr'', js ''CUM''),
       (js ''ru'', [1055, 1058]), (js ''uk'', [1055, 1058]), (js ''ar'', [1580, 1605, 1593]),
       (js ''ja'', [37329]), (js ''ko'', [44552]), (js ''zh'', [20116]),
       (js ''hi'', [2358, 2369, 2325, 2381, 2352]), (js ''th'', [3624, 46]),
       (js ''vi'', js ''T6''), (js ''id'', js ''JUM''), (js ''ms'', js ''JUM'')]),
    (js ''SAT'',
      [(js ''fr'', js ''SAM''), (js ''de'', js ''SA''), (js ''es'', [83, 193, 66]),
       (js ''it'', js ''SAB''), (js ''pt'', [83, 193, 66]), (js ''nl'', js ''ZA''),
       (js ''pl'', js ''SOB''), (js ''cs'', js ''SO''), (js ''da'', [76, 216, 82]),
       (js ''sv'', [76, 214, 82]), (js ''nb'', [76, 216, 82]), (js ''fi'', js ''LA''),
       (js ''ro'', [83, 194, 77]), (js ''hu'', js ''SZO''), (js ''tr'', js ''CUM''),
       (js ''ru'', [1057, 1041]), (js ''uk'', [1057, 1041]), (js ''ar'', [1587, 1576, 1578]),
       (js ''ja'', [22303]), (js ''ko'', [53664]), (js ''zh'', [20845]),
       (js ''hi'', [2358, 2344, 2367]), (js ''th'', [3626, 46]), (js ''vi'', js ''T7''),
       (js ''id'', js ''SAB''), (js ''ms'', js ''SAB'')]),
    (js ''SUN'',
      [(js ''fr'', js ''DIM''), (js ''de'', js ''SO''), (js ''es'', js ''DOM''),
       (js ''it'', js ''DOM''), (js ''pt'', js ''DOM''), (js ''nl'', js ''ZO''),
       (js ''pl'', js ''NIE''), (js ''cs'', js ''NE''), (js ''da'', [83, 216, 78]),
       (js ''sv'', [83, 214, 78]), (js ''nb'', [83, 216, 78]), (js ''fi'', js ''SU''),
       (js ''ro'', js ''DUM''), (js ''hu'', js ''VAS''), (js ''tr'', js ''PAZ''),
       (js ''ru'', [1042, 1057]), (js ''uk'', [1053, 1044]), (js ''ar'', [1571, 1581, 1583]),
       (js ''ja'', [26085]), (js ''ko'', [51068]), (js ''zh'', [26085]),
       (js ''hi'', [2352, 2357, 2367]), (js ''th'', [3629, 3634, 46]), (js ''vi'', js ''CN''),
       (js ''id'', js ''MIN''), (js ''ms'', js ''AHD'')])]"

text \<open>
  \<^verbatim>\<open>entry[targetLocale]\<close> reads a property of a plain object: an own property of the
  entry is a string of the table; a name that \<^verbatim>\<open>Object.prototype\<close> defines yields the
  inherited member, which is truthy and is not a string; any other name is \<^verbatim>\<open>undefined\<close>.
  (\<^verbatim>\<open>ABBREV_DICT[upper]\<close> is a lookup of own properties only: each inherited name holds
  an ASCII lower-case letter, which no result of \<^verbatim>\<open>toUpperCase\<close> does.)
\<close>

datatype translated_value = Str jsstring | Inherited

definition Object_prototype :: "jsstring list" where
  "Object_prototype =
     [js ''constructor'', js ''__defineGetter__'', js ''__defineSetter__'',
      js ''hasOwnProperty'', js ''__lookupGetter__'', js ''__lookupSetter__'',
      js ''isPrototypeOf'', js ''propertyIsEnumerable'', js ''toString'', js ''valueOf'',
      js ''__proto__'', js ''toLocaleString'']"

definition property :: "(jsstring \<times> jsstring) list \<Rightarrow> jsstring \<Rightarrow> translated_value option" where
  "property entry name =
     (case map_of entry name of
        Some s \<Rightarrow> Some (Str s)
      | None \<Rightarrow> if name \<in> set Object_prototype then Some Inherited else None)"

fun truthy_value :: "translated_value option \<Rightarrow> bool" where
  "truthy_value None = False"
| "truthy_value (Some (Str s)) = (s \<noteq> [])"
| "truthy_value (Some Inherited) = True"

text \<open>
  \<^verbatim>\<open>lookupAbbrev\<close> (lines 84-101). \<open>Inr None\<close> is the result \<^verbatim>\<open>null\<close>; calling
  \<^verbatim>\<open>toUpperCase\<close>, \<^verbatim>\<open>toLowerCase\<close> or \<^verbatim>\<open>charAt\<close> on a member that is not a string,
  or on \<^verbatim>\<open>text[0]\<close> of an empty text, throws a TypeError.
\<close>

definition lookupAbbrev :: "builtins \<Rightarrow> jsstring \<Rightarrow> jsstring \<Rightarrow> exn + translated_value option" where
  "lookupAbbrev B text_layer targetLocale =
     (let upper = toUpperCase B (trim text_layer) in
      case map_of ABBREV_DICT upper of
        None \<Rightarrow> Inr None
      | Some entry \<Rightarrow>
          (let baseLang = toLowerCase B (takeWhile (\<lambda>c. c \<noteq> 45) targetLocale);
               match = (if truthy_value (property entry targetLocale)
                        then property entry targetLocale else property entry baseLang)
           in if \<not> truthy_value match then Inr None
              else case match of
                None \<Rightarrow> Inr None
              | Some m \<Rightarrow>
                  if text_layer = toUpperCase B text_layer then
                    (case m of Str s \<Rightarrow> Inr (Some (Str (toUpperCase B s))) | Inherited \<Rightarrow> Inl TypeError)
                  else if text_layer = toLowerCase B text_layer then
                    (case m of Str s \<Rightarrow> Inr (Some (Str (toLowerCase B s))) | Inherited \<Rightarrow> Inl TypeError)
                  else (case text_layer of
                          [] \<Rightarrow> Inl TypeError
                        | c # _ \<Rightarrow>
                            if [c] = toUpperCase B [c] then
                              (case m of
                                 Str s \<Rightarrow> Inr (Some (Str (toUpperCase B (take 1 s) @ toLowerCase B (drop 1 s))))
                               | Inherited \<Rightarrow> Inl TypeError)
                            else Inr (Some m))))"

section \<open>Context codec\<close>

record TextItem =
  id_layer :: jsstring
  layerName :: jsstring
  text_layer :: jsstring

record TranslationResult =
  id_result :: jsstring
  translated :: translated_value

text \<open>The context text of lines 152-155: \<^verbatim>\<open>`[${layer.layerName}] ${layer.text}`\<close>.\<close>

definition contextText :: "TextItem \<Rightarrow> jsstring" where
  "contextText layer = js ''['' @ layerName layer @ js ''] '' @ text_layer layer"

text \<open>\<^verbatim>\<open>indexOf\<close>: the first position at which the pattern starts, \<open>None\<close> for \<open>-1\<close>.\<close>

fun indexOf :: "jsstring \<Rightarrow> jsstring \<Rightarrow> nat option" where
  "indexOf [] pat = (if pat = [] then Some 0 else None)"
| "indexOf (c # cs) pat =
     (if take (length pat) (c # cs) = pat then Some 0
      else map_option Suc (indexOf cs pat))"

text \<open>
  \<^verbatim>\<open>stripContext\<close> (lines 119-127). Its first argument is whatever the provider's reply
  held; a value that is not a string has no \<^verbatim>\<open>trim\<close> or \<^verbatim>\<open>substring\<close>, and the call
  throws a TypeError.
\<close>

definition stripContext :: "json \<Rightarrow> jsstring \<Rightarrow> exn + jsstring" where
  "stripContext translatedText name =
     (case translatedText of
        JStr s \<Rightarrow>
          (case indexOf s (js ''] '') of
             Some bracketEnd \<Rightarrow>
               if bracketEnd < length name + 20 then Inr (trim (drop (bracketEnd + 2) s))
               else Inr (trim s)
           | None \<Rightarrow> Inr (trim s))
      | _ \<Rightarrow> Inl TypeError)"

section \<open>Translation provider adapter\<close>

text \<open>
  Reading a property of a parsed value. \<open>member\<close> is \<^verbatim>\<open>v.name\<close> for the names the worker
  uses (\<^verbatim>\<open>translations\<close>, \<^verbatim>\<open>text\<close>, \<^verbatim>\<open>choices\<close>, \<^verbatim>\<open>message\<close>, \<^verbatim>\<open>content\<close>, \<^verbatim>\<open>id\<close>,
  \<^verbatim>\<open>translated\<close>), none of which a string, an array, a number or a boolean defines;
  \<open>element\<close> is \<^verbatim>\<open>v[i]\<close>. Both are for a value that is not \<^verbatim>\<open>null\<close>; \<open>opt_member\<close> and
  \<open>opt_element\<close> are the optional chaining \<^verbatim>\<open>v?.name\<close> and \<^verbatim>\<open>v?.[i]\<close>.
\<close>

fun member :: "jsstring \<Rightarrow> json \<Rightarrow> json option" where
  "member name (JObj kvs) = map_of kvs name"
| "member name _ = None"

fun element :: "nat \<Rightarrow> json \<Rightarrow> json option" where
  "element i (JArr xs) = (if i < length xs then Some (xs ! i) else None)"
| "element i (JStr s) = (if i < length s then Some (JStr [s ! i]) else None)"
| "element i (JObj kvs) = map_of kvs (digits i)"
| "element i _ = None"

fun opt_member :: "jsstring \<Rightarrow> json option \<Rightarrow> json option" where
  "opt_member name None = None"
| "opt_member name (Some JNull) = None"
| "opt_member name (Some v) = member name v"

fun opt_element :: "nat \<Rightarrow> json option \<Rightarrow> json option" where
  "opt_element i None = None"
| "opt_element i (Some JNull) = None"
| "opt_element i (Some v) = element i v"

text \<open>
  What \<^verbatim>\<open>await fetch(...)\<close> gives: a rejection, or a response with its status, its body
  as text and the result of \<^verbatim>\<open>response.json()\<close> (\<open>None\<close> where that throws). The replies
  of the two external services are inputs of the model.
\<close>

record http_response =
  ok :: bool
  status :: nat
  body_text :: jsstring
  body_json :: "json option"

datatype fetch_outcome = Rejected | Response http_response

text \<open>The calls the worker makes to the outside, in order.\<close>

datatype call =
    AzureCall jsstring "jsstring list"
  | OpenAICall

type_synonym results = "TranslationResult option list"

text \<open>
  The first loop of \<^verbatim>\<open>translateWithAzure\<close> (lines 138-146), from index \<open>i\<close> on.
  \<^verbatim>\<open>results\<close> is \<^verbatim>\<open>new Array(textLayers.length)\<close>: a slot never written is a hole, \<open>None\<close>.
  Both loops write at indices of \<^verbatim>\<open>textLayers\<close> only, which are below the length of
  \<^verbatim>\<open>results\<close>, so that no write extends the array.
\<close>

fun splitLayers ::
  "builtins \<Rightarrow> jsstring \<Rightarrow> nat \<Rightarrow> TextItem list \<Rightarrow> results \<Rightarrow> (nat \<times> TextItem) list
   \<Rightarrow> exn + results \<times> (nat \<times> TextItem) list" where
  "splitLayers B targetLocale i [] results azureLayers = Inr (results, azureLayers)"
| "splitLayers B targetLocale i (layer # rest) results azureLayers =
     (case lookupAbbrev B (text_layer layer) targetLocale of
        Inl e \<Rightarrow> Inl e
      | Inr (Some dictMatch) \<Rightarrow>
          splitLayers B targetLocale (i + 1) rest
            (results[i := Some \<lparr>id_result = id_layer layer, translated = dictMatch\<rparr>]) azureLayers
      | Inr None \<Rightarrow>
          splitLayers B targetLocale (i + 1) rest results (azureLayers @ [(i, layer)]))"

text \<open>
  The merge of lines 178-184, from position \<open>i\<close> of \<^verbatim>\<open>azureLayers\<close> on.
  \<^verbatim>\<open>azureResults[i]\<close> throws when the reply is \<^verbatim>\<open>null\<close>.
\<close>

fun mergeAzure :: "json \<Rightarrow> nat \<Rightarrow> (nat \<times> TextItem) list \<Rightarrow> results \<Rightarrow> exn + results" where
  "mergeAzure azureResults i [] results = Inr results"
| "mergeAzure azureResults i ((originalIndex, layer) # rest) results =
     (if azureResults = JNull then Inl TypeError
      else
        (let t = opt_member (js ''text'')
                   (opt_element 0 (opt_member (js ''translations'') (element i azureResults)));
             translatedText = (case t of
                                 Some v \<Rightarrow> if truthy t then v else JStr (text_layer layer)
                               | None \<Rightarrow> JStr (text_layer layer))
         in case stripContext translatedText (layerName layer) of
              Inl e \<Rightarrow> Inl e
            | Inr s \<Rightarrow>
                mergeAzure azureResults (i + 1) rest
                  (results[originalIndex := Some \<lparr>id_result = id_layer layer, translated = Str s\<rparr>])))"

text \<open>
  \<^verbatim>\<open>translateWithAzure\<close> (lines 133-187): the result or the exception, and the calls made.
\<close>

definition translateWithAzure ::
  "builtins \<Rightarrow> fetch_outcome \<Rightarrow> TextItem list \<Rightarrow> jsstring \<Rightarrow> (exn + results) \<times> call list" where
  "translateWithAzure B azure textLayers targetLocale =
     (case splitLayers B targetLocale 0 textLayers (replicate (length textLayers) None) [] of
        Inl e \<Rightarrow> (Inl e, [])
      | Inr (results, azureLayers) \<Rightarrow>
          if length azureLayers = 0 then (Inr results, [])
          else
            (let azureBody = map (\<lambda>(originalIndex, layer). contextText layer) azureLayers;
                 calls = [AzureCall targetLocale azureBody]
             in case azure of
                  Rejected \<Rightarrow> (Inl NetworkError, calls)
                | Response response \<Rightarrow>
                    if \<not> ok response then
                      (Inl (Error (js ''Azure Translator error ('' @ String_num (int (status response))
                                   @ js ''): '' @ take 200 (body_text response))), calls)
                    else
                      (case body_json response of
                         None \<Rightarrow> (Inl SyntaxError, calls)
                       | Some azureResults \<Rightarrow> (mergeAzure azureResults 0 azureLayers results, calls))))"

section \<open>Refinement stage\<close>

text \<open>
  Line 259: \<^verbatim>\<open>data.choices?.[0]?.message?.content?.trim()\<close>. Reading \<^verbatim>\<open>choices\<close> of
  \<^verbatim>\<open>null\<close> throws, and so does calling \<^verbatim>\<open>trim\<close> on a content that is neither a string nor
  absent; \<open>Inr None\<close> is \<^verbatim>\<open>undefined\<close>.
\<close>

definition llmContent :: "json \<Rightarrow> exn + jsstring option" where
  "llmContent data =
     (if data = JNull then Inl TypeError
      else case opt_member (js ''content'')
                  (opt_member (js ''message'') (opt_element 0 (member (js ''choices'') data))) of
             None \<Rightarrow> Inr None
           | Some JNull \<Rightarrow> Inr None
           | Some (JStr s) \<Rightarrow> Inr (Some (trim s))
           | Some _ \<Rightarrow> Inl TypeError)"

text \<open>
  Line 266: \<^verbatim>\<open>content.replace(/^```json\s*/i, "").replace(/```\s*$/i, "").trim()\<close>. The
  flag \<^verbatim>\<open>i\<close> lets the four letters match in either ASCII case. The second pattern can
  only match the last three back-ticks of the text when nothing but white space follows.
\<close>

definition asciiLower :: "nat \<Rightarrow> nat" where
  "asciiLower c = (if 65 \<le> c \<and> c \<le> 90 then c + 32 else c)"

definition stripFenceStart :: "jsstring \<Rightarrow> jsstring" where
  "stripFenceStart s =
     (if map asciiLower (take 7 s) = js ''```json'' then dropWhile isWhiteSpace (drop 7 s) else s)"

definition stripFenceEnd :: "jsstring \<Rightarrow> jsstring" where
  "stripFenceEnd s =
     (let t = trimEnd s
      in if 3 \<le> length t \<and> drop (length t - 3) t = js ''```'' then take (length t - 3) t else s)"

definition stripFences :: "jsstring \<Rightarrow> jsstring" where
  "stripFences content = trim (stripFenceEnd (stripFenceStart content))"

text \<open>
  Lines 277-282: the lookup from id to refined text. \<^verbatim>\<open>r.id\<close> throws on a \<^verbatim>\<open>null\<close>
  element. The lookup is only ever read at the id of a provider result, which is a string,
  and a \<^verbatim>\<open>Map\<close> never finds a string under a key of another type: the records stored
  under a key that is not a string are left out.
\<close>

fun collectRefined :: "json list \<Rightarrow> (jsstring \<rightharpoonup> jsstring) \<Rightarrow> exn + (jsstring \<rightharpoonup> jsstring)" where
  "collectRefined [] refinedMap = Inr refinedMap"
| "collectRefined (r # rest) refinedMap =
     (if r = JNull then Inl TypeError
      else if truthy (member (js ''id'') r) then
        (case (member (js ''id'') r, member (js ''translated'') r) of
           (Some (JStr k), Some (JStr t)) \<Rightarrow> collectRefined rest (refinedMap(k \<mapsto> t))
         | _ \<Rightarrow> collectRefined rest refinedMap)
      else collectRefined rest refinedMap)"

text \<open>
  Lines 284-287: \<^verbatim>\<open>refinedMap.get(r.id) || r.translated\<close>; \<^verbatim>\<open>map\<close> keeps the holes of
  an array.
\<close>

definition mergeRefined :: "(jsstring \<rightharpoonup> jsstring) \<Rightarrow> results \<Rightarrow> results" where
  "mergeRefined refinedMap azureResults =
     map (map_option (\<lambda>r.
            \<lparr>id_result = id_result r,
             translated = (case refinedMap (id_result r) of
                             Some t \<Rightarrow> if t \<noteq> [] then Str t else translated r
                           | None \<Rightarrow> translated r)\<rparr>))
         azureResults"

text \<open>Lines 276-287 as a whole: the merge of a parsed list into the provider results.\<close>

definition mergeById :: "json list \<Rightarrow> results \<Rightarrow> exn + results" where
  "mergeById refined azureResults =
     (case collectRefined refined Map.empty of
        Inl e \<Rightarrow> Inl e
      | Inr refinedMap \<Rightarrow> Inr (mergeRefined refinedMap azureResults))"

text \<open>
  \<^verbatim>\<open>refineWithLLM\<close> (lines 203-293): the results and the calls made. The prompt is built
  from the layers, the locale and the currencies by string concatenation and is read by
  the refinement service only; it is not part of the model. Everything after line 234 is
  inside \<^verbatim>\<open>try\<close>, so each exception there ends in \<^verbatim>\<open>return azureResults\<close>.
\<close>

definition refineWithLLM ::
  "builtins \<Rightarrow> jsstring option \<Rightarrow> fetch_outcome \<Rightarrow> results \<Rightarrow> results \<times> call list" where
  "refineWithLLM B OPENAI_API_KEY openai azureResults =
     (if OPENAI_API_KEY = None \<or> OPENAI_API_KEY = Some [] then (azureResults, [])
      else
        (case openai of
           Rejected \<Rightarrow> azureResults
         | Response response \<Rightarrow>
             if \<not> ok response then azureResults
             else
               (case body_json response of
                  None \<Rightarrow> azureResults
                | Some data \<Rightarrow>
                    (case llmContent data of
                       Inl e \<Rightarrow> azureResults
                     | Inr None \<Rightarrow> azureResults
                     | Inr (Some content) \<Rightarrow>
                         if content = [] then azureResults
                         else
                           (case JSON_parse B (stripFences content) of
                              None \<Rightarrow> azureResults
                            | Some (JArr refined) \<Rightarrow>
                                (case mergeById refined azureResults of
                                   Inl e \<Rightarrow> azureResults
                                 | Inr merged \<Rightarrow> merged)
                            | Some _ \<Rightarrow> azureResults))),
         [OpenAICall]))"

section \<open>Pipeline orchestrator\<close>

text \<open>
  The request as the handler reads it. The body is what \<^verbatim>\<open>await request.json()\<close> and the
  destructuring of line 447 give: an exception (a body that is not JSON, or \<^verbatim>\<open>null\<close>), or
  the four fields. \<^verbatim>\<open>textLayers\<close> is absent or falsy, or some value that is not an array,
  or an array; \<^verbatim>\<open>targetLocale\<close> is any value. The elements of the array, the label and the
  currencies are taken well-typed, as the plugin sends them: an item has the strings
  \<^verbatim>\<open>id\<close>, \<^verbatim>\<open>layerName\<close> and \<^verbatim>\<open>text\<close>, and \<^verbatim>\<open>localeCurrencies\<close> is absent or an array of
  strings (so that \<^verbatim>\<open>localeCurrencies.join\<close> of line 216, which is outside \<^verbatim>\<open>try\<close>, does
  not throw).
\<close>

datatype layers_value = Falsy | NotArray | Layers "TextItem list"

record payload =
  textLayers :: layers_value
  targetLocale :: "json option"
  localeLabel :: "jsstring option"
  localeCurrencies :: "jsstring list option"

datatype request_body = BodyThrows exn | Body payload

record request =
  http_method :: jsstring
  pathname :: jsstring
  X_User_Id :: "jsstring option"
  body :: request_body

record env =
  RATE_LIMIT :: kv_namespace
  AZURE_TRANSLATOR_KEY :: "jsstring option"
  AZURE_TRANSLATOR_REGION :: "jsstring option"
  OPENAI_API_KEY :: "jsstring option"

datatype response_body =
    Empty
  | PRIVACY_POLICY_HTML
  | PlainText jsstring
  | ErrorJson jsstring bool
  | TranslationError exn
  | Translations results

record worker_response =
  resp_status :: nat
  resp_body :: response_body
  X_RateLimit_Remaining :: "jsstring option"

definition falsy_secret :: "jsstring option \<Rightarrow> bool" where
  "falsy_secret s = (s = None \<or> s = Some [])"

text \<open>Line 427: \<^verbatim>\<open>request.headers.get("X-User-Id") || "anonymous"\<close>.\<close>

definition userIdOf :: "request \<Rightarrow> jsstring" where
  "userIdOf request =
     (case X_User_Id request of
        None \<Rightarrow> js ''anonymous''
      | Some u \<Rightarrow> if u = [] then js ''anonymous'' else u)"

definition invalidRequest :: worker_response where
  "invalidRequest =
     \<lparr>resp_status = 400,
      resp_body = ErrorJson (js ''Invalid request. Expected { textLayers, targetLocale }.'') False,
      X_RateLimit_Remaining = None\<rparr>"

definition translationError :: "exn \<Rightarrow> worker_response" where
  "translationError e =
     \<lparr>resp_status = 502, resp_body = TranslationError e, X_RateLimit_Remaining = None\<rparr>"

definition rateLimited :: worker_response where
  "rateLimited =
     \<lparr>resp_status = 429,
      resp_body = ErrorJson
        (js ''Daily limit reached (25 translations/day). Please try again tomorrow.'') True,
      X_RateLimit_Remaining = Some (js ''0'')\<rparr>"

text \<open>
  Lines 459-470: the provider stage. A target locale of the source language passes the
  texts through; any other goes to \<^verbatim>\<open>translateWithAzure\<close>.
\<close>

definition providerStage ::
  "builtins \<Rightarrow> fetch_outcome \<Rightarrow> TextItem list \<Rightarrow> jsstring \<Rightarrow> (exn + results) \<times> call list" where
  "providerStage B azure layers locale =
     (let isSourceLanguage = (locale = js ''en'' \<or> take 3 locale = js ''en-'')
      in if isSourceLanguage then
           (Inr (map (\<lambda>l. Some \<lparr>id_result = id_layer l, translated = Str (text_layer l)\<rparr>) layers), [])
         else translateWithAzure B azure layers locale)"

text \<open>The condition of line 449, under which the request is answered with status 400.\<close>

definition invalidPayload :: "payload \<Rightarrow> bool" where
  "invalidPayload p = (case textLayers p of Layers layers \<Rightarrow> \<not> truthy (targetLocale p) | _ \<Rightarrow> True)"

text \<open>
  The \<^verbatim>\<open>try\<close> block of the handler (lines 446-488), entered once the caller is admitted:
  the response and the calls made to the provider and to the refinement service.
  \<open>ErrorJson message rateLimited\<close> is the body \<^verbatim>\<open>{error, rateLimited}\<close>, and
  \<open>TranslationError e\<close> the body of line 485 for the exception \<open>e\<close>. A truthy
  \<^verbatim>\<open>targetLocale\<close> that is not a string has no \<^verbatim>\<open>startsWith\<close>: line 459 throws.
\<close>

definition translateRequest ::
  "builtins \<Rightarrow> fetch_outcome \<Rightarrow> fetch_outcome \<Rightarrow> jsstring option \<Rightarrow> rate_check \<Rightarrow> request_body
   \<Rightarrow> worker_response \<times> call list" where
  "translateRequest B azure openai openaiKey rateCheck requestBody =
     (case requestBody of
        BodyThrows e \<Rightarrow> (translationError e, [])
      | Body p \<Rightarrow>
          if invalidPayload p then (invalidRequest, [])
          else
            (case (textLayers p, targetLocale p) of
               (Layers layers, Some (JStr locale)) \<Rightarrow>
                 (let (azureTranslations, calls) = providerStage B azure layers locale
                  in case azureTranslations of
                       Inl e \<Rightarrow> (translationError e, calls)
                     | Inr provided \<Rightarrow>
                         (let (translations, calls') = refineWithLLM B openaiKey openai provided
                          in (\<lparr>resp_status = 200, resp_body = Translations translations,
                               X_RateLimit_Remaining = Some (String_num (remaining rateCheck))\<rparr>,
                              calls @ calls')))
             | _ \<Rightarrow> (translationError TypeError, [])))"

text \<open>
  The handler \<^verbatim>\<open>fetch(request, env)\<close> (lines 397-489): the response, the quota store
  after the request, and the calls made to the outside.
\<close>

definition fetch ::
  "builtins \<Rightarrow> fetch_outcome \<Rightarrow> fetch_outcome \<Rightarrow> nat \<Rightarrow> request \<Rightarrow> env
   \<Rightarrow> worker_response \<times> kv_namespace \<times> call list" where
  "fetch B azure openai now request env =
     (if http_method request = js ''OPTIONS'' then
        (\<lparr>resp_status = 204, resp_body = Empty, X_RateLimit_Remaining = None\<rparr>, RATE_LIMIT env, [])
      else if http_method request = js ''GET'' \<and> pathname request = js ''/privacy'' then
        (\<lparr>resp_status = 200, resp_body = PRIVACY_POLICY_HTML, X_RateLimit_Remaining = None\<rparr>,
         RATE_LIMIT env, [])
      else if http_method request \<noteq> js ''POST'' then
        (\<lparr>resp_status = 405, resp_body = PlainText (js ''Method not allowed''),
          X_RateLimit_Remaining = None\<rparr>, RATE_LIMIT env, [])
      else if falsy_secret (AZURE_TRANSLATOR_KEY env) \<or> falsy_secret (AZURE_TRANSLATOR_REGION env) then
        (\<lparr>resp_status = 500,
          resp_body = ErrorJson (js ''Server misconfigured: missing Azure Translator credentials.'') False,
          X_RateLimit_Remaining = None\<rparr>, RATE_LIMIT env, [])
      else
        (let (rateCheck, store) = checkRateLimit (RATE_LIMIT env) now (userIdOf request)
         in if \<not> allowed rateCheck then (rateLimited, store, [])
            else
              (let (response, calls) =
                     translateRequest B azure openai (OPENAI_API_KEY env) rateCheck (body request)
               in (response, store, calls))))"

text \<open>
  Admission calls of one identity that run one after the other, at the given times: the
  results in order and the store at the end.
\<close>

fun admitSeq :: "kv_namespace \<Rightarrow> jsstring \<Rightarrow> nat list \<Rightarrow> rate_check list \<times> kv_namespace" where
  "admitSeq ns userId [] = ([], ns)"
| "admitSeq ns userId (t # ts) =
     (let (r, ns') = checkRateLimit ns t userId;
          (rs, ns'') = admitSeq ns' userId ts
      in (r # rs, ns''))"

section \<open>Notions for the properties\<close>

subsection \<open>Admission calls that overlap\<close>

text \<open>
  Between its two \<^verbatim>\<open>await\<close>s a call of \<^verbatim>\<open>checkRateLimit\<close> holds the count it has read
  while other requests run. A call is \<open>Reading\<close> before \<^verbatim>\<open>get\<close> answers, \<open>Writing current\<close>
  once it holds \<^verbatim>\<open>current\<close>, and \<open>Returned r\<close> at the end. \<open>resume i now\<close> lets call \<open>i\<close>
  run to its next suspension point at time \<open>now\<close>; a schedule is the order in which the
  calls are resumed.
\<close>

datatype phase = Reading | Writing int | Returned rate_check

type_synonym admissions = "kv_namespace \<times> (jsstring \<times> phase) list"

definition resume :: "nat \<Rightarrow> nat \<Rightarrow> admissions \<Rightarrow> admissions" where
  "resume i now st =
     (let (ns, calls) = st
      in if i < length calls then
           (case calls ! i of
              (userId, Reading) \<Rightarrow> (ns, calls[i := (userId, Writing (readCurrent ns now userId))])
            | (userId, Writing current) \<Rightarrow>
                (let (r, ns') = admitWith current ns now userId
                 in (ns', calls[i := (userId, Returned r)]))
            | (userId, Returned r) \<Rightarrow> (ns, calls))
         else (ns, calls))"

fun run :: "(nat \<times> nat) list \<Rightarrow> admissions \<Rightarrow> admissions" where
  "run [] st = st"
| "run ((i, now) # schedule) st = run schedule (resume i now st)"

subsection \<open>The refined text of an id\<close>

text \<open>
  What a parsed refinement list says about an id: the \<^verbatim>\<open>translated\<close> string of the last
  record that carries this id and a string; \<open>None\<close> when there is no such record. The
  empty id is falsy and is never looked at.
\<close>

fun refinedText :: "json list \<Rightarrow> jsstring \<Rightarrow> jsstring option" where
  "refinedText [] k = None"
| "refinedText (r # rest) k =
     (case refinedText rest k of
        Some t \<Rightarrow> Some t
      | None \<Rightarrow>
          (case (member (js ''id'') r, member (js ''translated'') r) of
             (Some (JStr k'), Some (JStr t)) \<Rightarrow> if k' = k \<and> k \<noteq> [] then Some t else None
           | _ \<Rightarrow> None))"

subsection \<open>An engine for examples\<close>

text \<open>
  Case conversion restricted to the ASCII letters, and a \<^verbatim>\<open>JSON.parse\<close> that is given
  its graph at the texts of interest: enough to run the worker on ASCII examples.
\<close>

definition asciiUpper :: "nat \<Rightarrow> nat" where
  "asciiUpper c = (if 97 \<le> c \<and> c \<le> 122 then c - 32 else c)"

definition engine :: "(jsstring \<times> json) list \<Rightarrow> builtins" where
  "engine parses =
     \<lparr>toUpperCase = map asciiUpper, toLowerCase = map asciiLower, JSON_parse = map_of parses\<rparr>"

subsection \<open>Stores written by the limiter\<close>

text \<open>\<open>counted ns userId k e\<close>: the store holds the count \<open>k\<close> for the identity until \<open>e\<close>.\<close>

definition counted :: "kv_namespace \<Rightarrow> jsstring \<Rightarrow> nat \<Rightarrow> nat \<Rightarrow> bool" where
  "counted ns userId k e =
     (ns (rateKey userId) = Some \<lparr>stored = String_num (int k), expiration = e\<rparr>)"

subsection \<open>A configured worker and a translation request\<close>

definition sample_env :: "kv_namespace \<Rightarrow> jsstring option \<Rightarrow> env" where
  "sample_env ns openaiKey =
     \<lparr>RATE_LIMIT = ns, AZURE_TRANSLATOR_KEY = Some (js ''key''),
      AZURE_TRANSLATOR_REGION = Some (js ''westeurope''), OPENAI_API_KEY = openaiKey\<rparr>"

definition sample_request :: "request_body \<Rightarrow> request" where
  "sample_request b =
     \<lparr>http_method = js ''POST'', pathname = js ''/'', X_User_Id = Some (js ''u1''), body = b\<rparr>"

subsection \<open>Dictionary hits and misses\<close>

text \<open>
  A layer is a miss when \<^verbatim>\<open>lookupAbbrev\<close> returns \<^verbatim>\<open>null\<close> for its text; the lookup
  throws for a layer when it ends in an exception.
\<close>

definition miss :: "builtins \<Rightarrow> jsstring \<Rightarrow> TextItem \<Rightarrow> bool" where
  "miss B loc layer = (lookupAbbrev B (text_layer layer) loc = Inr None)"

definition lookupThrows :: "builtins \<Rightarrow> jsstring \<Rightarrow> TextItem \<Rightarrow> bool" where
  "lookupThrows B loc layer = isl (lookupAbbrev B (text_layer layer) loc)"

subsection \<open>Example payloads and replies\<close>

definition no_payload :: payload where
  "no_payload = \<lparr>textLayers = Falsy, targetLocale = None, localeLabel = None, localeCurrencies = None\<rparr>"

definition english_payload :: "TextItem list \<Rightarrow> payload" where
  "english_payload layers =
     \<lparr>textLayers = Layers layers, targetLocale = Some (JStr (js ''en'')),
      localeLabel = None, localeCurrencies = None\<rparr>"

definition sample_layers :: "TextItem list" where
  "sample_layers =
     [\<lparr>id_layer = js ''a'', layerName = js ''Heading'', text_layer = js ''Welcome''\<rparr>,
      \<lparr>id_layer = js ''b'', layerName = js ''Date'', text_layer = js ''JAN''\<rparr>]"

definition azure_reply :: fetch_outcome where
  "azure_reply =
     Response \<lparr>ok = True, status = 200, body_text = [],
       body_json = Some (JArr [JObj [(js ''translations'',
                     JArr [JObj [(js ''text'', JStr (js ''[Titre] Bienvenue''))]])]])\<rparr>"

subsection \<open>The list a refinement call returns\<close>

text \<open>
  The outcome of the refinement call in the words of the specification: the list of
  records it returned, or \<open>None\<close> when the call throws or times out, answers with a
  non-success status or a body that is not JSON, carries no content, or carries content
  that does not parse to a list.
\<close>

definition llmList :: "builtins \<Rightarrow> fetch_outcome \<Rightarrow> json list option" where
  "llmList B openai =
     (case openai of
        Rejected \<Rightarrow> None
      | Response response \<Rightarrow>
          if \<not> ok response then None
          else case body_json response of
                 None \<Rightarrow> None
               | Some data \<Rightarrow>
                   (case llmContent data of
                      Inr (Some content) \<Rightarrow>
                        if content = [] then None
                        else (case JSON_parse B (stripFences content) of
                                Some (JArr refined) \<Rightarrow> Some refined
                              | _ \<Rightarrow> None)
                    | _ \<Rightarrow> None))"

subsection \<open>An example request for French\<close>

definition fr_payload :: payload where
  "fr_payload =
     \<lparr>textLayers = Layers sample_layers, targetLocale = Some (JStr (js ''fr'')),
      localeLabel = None, localeCurrencies = None\<rparr>"

definition openai_down :: fetch_outcome where
  "openai_down = Response \<lparr>ok = False, status = 500, body_text = [], body_json = None\<rparr>"

definition openai_prose :: fetch_outcome where
  "openai_prose =
     Response \<lparr>ok = True, status = 200, body_text = [],
       body_json = Some (JObj [(js ''choices'',
                     JArr [JObj [(js ''message'', JObj [(js ''content'', JStr (js '' Sure! ''))])]])])\<rparr>"

definition sample_results :: results where
  "sample_results =
     [Some \<lparr>id_result = js ''a'', translated = Str (js ''Bienvenue'')\<rparr>,
      Some \<lparr>id_result = js ''b'', translated = Str (js ''JANV'')\<rparr>]"

definition sample_refined :: "json list" where
  "sample_refined =
     [JObj [(js ''id'', JStr (js ''a'')), (js ''translated'', JStr [])],
      JObj [(js ''id'', JStr (js ''b'')), (js ''translated'', JStr (js ''JANV.''))]]"

section \<open>Decimal strings are read back\<close>

lemma digitValue_dec: "48 \<le> c \<Longrightarrow> c \<le> 57 \<Longrightarrow> digitValue 10 c = Some (c - 48)"
  by (simp add: digitValue_def)

lemma parseDigits_append:
  "\<forall>c \<in> set xs. digitValue R c \<noteq> None \<Longrightarrow>
   parseDigits R acc (xs @ ys) = parseDigits R (parseDigits R acc xs) ys"
  by (induction xs arbitrary: acc) (auto split: option.splits)

lemma digits_dec: "c \<in> set (digits n) \<Longrightarrow> 48 \<le> c \<and> c \<le> 57"
proof (induction n rule: digits.induct)
  case (1 n)
  show ?case
  proof (cases "n < 10")
    case True
    with "1.prems" show ?thesis by (simp add: digits.simps [of n])
  next
    case False
    with "1.prems" "1.IH" show ?thesis
      by (auto simp: digits.simps [of n])
  qed
qed

lemma digits_nonempty: "digits n \<noteq> []"
  by (subst digits.simps) simp

lemma parseDigits_digits: "parseDigits 10 acc (digits n) = acc * 10 ^ length (digits n) + n"
proof (induction n arbitrary: acc rule: digits.induct)
  case (1 n)
  show ?case
  proof (cases "n < 10")
    case True
    then show ?thesis by (simp add: digits.simps [of n] digitValue_def)
  next
    case False
    have d: "\<forall>c \<in> set (digits (n div 10)). digitValue 10 c \<noteq> None"
      using digits_dec digitValue_dec by fastforce
    have "parseDigits 10 acc (digits n) =
          parseDigits 10 (parseDigits 10 acc (digits (n div 10))) [48 + n mod 10]"
      using False by (simp add: digits.simps [of n] parseDigits_append [OF d])
    also have "\<dots> = (acc * 10 ^ length (digits (n div 10)) + n div 10) * 10 + n mod 10"
      using False by (simp add: "1.IH" digitValue_def)
    also have "\<dots> = acc * 10 ^ length (digits n) + n"
      using False by (simp add: digits.simps [of n] algebra_simps)
    finally show ?thesis .
  qed
qed

lemma parseInt_String_num:
  assumes n: "0 \<le> n"
  shows "parseInt (String_num n) = Some n"
proof -
  define ds where "ds = digits (nat n)"
  have ne: "ds \<noteq> []" by (simp add: ds_def digits_nonempty)
  have dec: "\<And>c. c \<in> set ds \<Longrightarrow> 48 \<le> c \<and> c \<le> 57" unfolding ds_def by (rule digits_dec)
  obtain c cs where ds: "ds = c # cs" using ne by (cases ds) auto
  have c: "48 \<le> c \<and> c \<le> 57" using dec ds by simp
  have nws: "\<not> isWhiteSpace c" using c by (auto simp: isWhiteSpace_def)
  have nohex: "take 2 ds \<noteq> js ''0x'' \<and> take 2 ds \<noteq> js ''0X''"
  proof (cases cs)
    case Nil
    then show ?thesis by (simp add: ds js_def)
  next
    case (Cons c' cs')
    then have "48 \<le> c' \<and> c' \<le> 57" using dec ds by simp
    then show ?thesis using Cons by (auto simp: ds js_def)
  qed
  have nosign: "take 1 ds \<noteq> js ''-'' \<and> take 1 ds \<noteq> js ''+''"
    using c by (auto simp: ds js_def)
  have S: "dropWhile isWhiteSpace ds = ds" using nws ds by simp
  have "parseInt ds =
        (case ds of [] \<Rightarrow> None
         | c # cs \<Rightarrow> (case digitValue 10 c of None \<Rightarrow> None
                        | Some d \<Rightarrow> Some (int (parseDigits 10 0 ds))))"
    unfolding parseInt_def Let_def S using nosign nohex
    by (simp split: list.splits option.splits)
  also have "\<dots> = Some (int (parseDigits 10 0 ds))"
    using c by (simp add: ds digitValue_dec)
  finally have "parseInt ds = Some (int (parseDigits 10 0 ds))" .
  then show ?thesis using n by (simp add: String_num_def ds_def parseDigits_digits)
qed

section \<open>The rate limiter, call after call\<close>

lemma readCurrent_fresh:
  "kv_get ns t (rateKey u) = None \<Longrightarrow> readCurrent ns t u = 0"
  by (simp add: readCurrent_def)

lemma admitWith_allowed:
  "0 \<le> c \<Longrightarrow> c < 25 \<Longrightarrow>
   admitWith c ns t u =
     (\<lparr>allowed = True, remaining = 24 - c\<rparr>, kv_put ns t (rateKey u) (String_num (c + 1)) 86400)"
  by (simp add: admitWith_def DAILY_LIMIT_def DAY_IN_SECONDS_def)

lemma readCurrent_counted:
  "counted ns u k e \<Longrightarrow> t < e \<Longrightarrow> readCurrent ns t u = int k"
  by (simp add: counted_def readCurrent_def kv_get_def parseInt_String_num)

lemma counted_put:
  "counted (kv_put ns t (rateKey u) (String_num (int k + 1)) 86400) u (Suc k) (t + 86400)"
  by (simp add: counted_def kv_put_def add.commute)

lemma checkRateLimit_counted:
  assumes "counted ns u k e" "t < e" "k < 25"
  shows "\<exists>ns'. checkRateLimit ns t u = (\<lparr>allowed = True, remaining = 24 - int k\<rparr>, ns')
               \<and> counted ns' u (Suc k) (t + 86400)"
  using assms
  by (simp add: checkRateLimit_def readCurrent_counted admitWith_allowed counted_put)

lemma checkRateLimit_fresh:
  assumes "kv_get ns t (rateKey u) = None"
  shows "\<exists>ns'. checkRateLimit ns t u = (\<lparr>allowed = True, remaining = 24\<rparr>, ns')
               \<and> counted ns' u (Suc 0) (t + 86400)"
  using assms counted_put [of ns t u 0]
  by (simp add: checkRateLimit_def readCurrent_fresh admitWith_allowed)

lemma checkRateLimit_full:
  assumes "counted ns u 25 e" "t < e"
  shows "checkRateLimit ns t u = (\<lparr>allowed = False, remaining = 0\<rparr>, ns)"
  using assms
  by (simp add: checkRateLimit_def readCurrent_counted admitWith_def DAILY_LIMIT_def)

lemma admitSeq_counted:
  assumes "counted ns u k e" "bound \<le> e" "\<forall>t \<in> set ts. t < bound \<and> bound \<le> t + 86400"
    and "k + length ts \<le> 25"
  shows "\<exists>ns' e'. admitSeq ns u ts =
            (map (\<lambda>i. \<lparr>allowed = True, remaining = 24 - int (k + i)\<rparr>) [0..<length ts], ns')
          \<and> counted ns' u (k + length ts) e' \<and> bound \<le> e'"
  using assms
proof (induction ts arbitrary: ns k e)
  case Nil
  then show ?case by auto
next
  case (Cons t ts)
  have t: "t < e" "k < 25" using Cons.prems by auto
  obtain ns1 where s1: "checkRateLimit ns t u = (\<lparr>allowed = True, remaining = 24 - int k\<rparr>, ns1)"
    and c1: "counted ns1 u (Suc k) (t + 86400)"
    using checkRateLimit_counted [OF Cons.prems(1) t] by blast
  have "\<exists>ns' e'. admitSeq ns1 u ts =
            (map (\<lambda>i. \<lparr>allowed = True, remaining = 24 - int (Suc k + i)\<rparr>) [0..<length ts], ns')
          \<and> counted ns' u (Suc k + length ts) e' \<and> bound \<le> e'"
    using Cons.prems by (intro Cons.IH [OF c1]) auto
  then obtain ns' e' where
    s2: "admitSeq ns1 u ts =
           (map (\<lambda>i. \<lparr>allowed = True, remaining = 24 - int (Suc k + i)\<rparr>) [0..<length ts], ns')"
    and c2: "counted ns' u (Suc k + length ts) e'" "bound \<le> e'"
    by blast
  have "map (\<lambda>i. \<lparr>allowed = True, remaining = 24 - int (k + i)\<rparr>) [0..<length (t # ts)] =
        \<lparr>allowed = True, remaining = 24 - int k\<rparr> #
        map (\<lambda>i. \<lparr>allowed = True, remaining = 24 - int (Suc k + i)\<rparr>) [0..<length ts]"
    by (simp add: upt_rec [of 0] map_Suc_upt [symmetric] del: upt_Suc)
  then show ?case using s1 s2 c2 by auto
qed

lemma denied_unchanged:
  "\<not> allowed (fst (checkRateLimit ns t u)) \<Longrightarrow>
   checkRateLimit ns t u = (\<lparr>allowed = False, remaining = 0\<rparr>, ns)"
  by (simp add: checkRateLimit_def admitWith_def split: if_splits)

lemma fetch_denied:
  assumes "http_method request = js ''POST''"
    and "\<not> falsy_secret (AZURE_TRANSLATOR_KEY e)" "\<not> falsy_secret (AZURE_TRANSLATOR_REGION e)"
    and "\<not> allowed (fst (checkRateLimit (RATE_LIMIT e) now (userIdOf request)))"
  shows "fetch B azure openai now request e = (rateLimited, RATE_LIMIT e, [])"
proof -
  have m: "http_method request \<noteq> js ''OPTIONS''" "http_method request \<noteq> js ''GET''"
    using assms(1) by (simp_all add: js_def)
  show ?thesis
    using assms m denied_unchanged [OF assms(4)]
    by (simp add: fetch_def)
qed

lemma fetch_admitted:
  assumes "http_method request = js ''POST''"
    and "\<not> falsy_secret (AZURE_TRANSLATOR_KEY e)" "\<not> falsy_secret (AZURE_TRANSLATOR_REGION e)"
    and "checkRateLimit (RATE_LIMIT e) now (userIdOf request) = (rateCheck, store)"
    and "allowed rateCheck"
  shows "fetch B azure openai now request e =
           (fst (translateRequest B azure openai (OPENAI_API_KEY e) rateCheck (body request)), store,
            snd (translateRequest B azure openai (OPENAI_API_KEY e) rateCheck (body request)))"
proof -
  have m: "http_method request \<noteq> js ''OPTIONS''" "http_method request \<noteq> js ''GET''"
    using assms(1) by (simp_all add: js_def)
  show ?thesis
    using assms m by (simp add: fetch_def split: prod.splits)
qed

lemma sorted_le_last: "sorted xs \<Longrightarrow> x \<in> set xs \<Longrightarrow> x \<le> (last xs :: nat)"
  by (induction xs) auto

text \<open>
  Claim C3, as the code has it. An identity whose counter is absent or expired makes 25
  admission calls that run one after the other (no call reads before the one before it
  has written), all within one day of the first. Each is allowed, with 24, 23, ..., 0
  remaining. A further call within that day, after the 25th has written, returns
  \<^verbatim>\<open>{allowed: false, remaining: 0}\<close> and leaves the store as it was, and the handler
  answers the request with status 429 without calling the provider or the refinement
  service, whatever the body. The last conjunct holds of every store: a call that is not
  allowed reports 0 remaining and writes nothing.
\<close>

theorem quota_exhausted_after_daily_limit:
  assumes fresh: "kv_get ns (hd ts) (rateKey userId) = None"
    and len: "length ts = nat DAILY_LIMIT"
    and sorted: "sorted ts"
    and t: "last ts \<le> t" "t < hd ts + DAY_IN_SECONDS"
    and request: "http_method request = js ''POST''" "userIdOf request = userId"
    and e: "\<not> falsy_secret (AZURE_TRANSLATOR_KEY e)" "\<not> falsy_secret (AZURE_TRANSLATOR_REGION e)"
      "RATE_LIMIT e = snd (admitSeq ns userId ts)"
  shows "fst (admitSeq ns userId ts) =
           map (\<lambda>i. \<lparr>allowed = True, remaining = DAILY_LIMIT - int i - 1\<rparr>) [0..<length ts]
       \<and> checkRateLimit (RATE_LIMIT e) t userId = (\<lparr>allowed = False, remaining = 0\<rparr>, RATE_LIMIT e)
       \<and> fetch B azure openai t request e = (rateLimited, RATE_LIMIT e, [])
       \<and> (allowed (fst (checkRateLimit ns0 t0 u0))
          \<or> checkRateLimit ns0 t0 u0 = (\<lparr>allowed = False, remaining = 0\<rparr>, ns0))"
proof -
  obtain t1 ts' where ts: "ts = t1 # ts'" using len by (cases ts) (auto simp: DAILY_LIMIT_def)
  have len': "length ts' = 24" using len ts by (simp add: DAILY_LIMIT_def)
  obtain ns1 where s1: "checkRateLimit ns t1 userId = (\<lparr>allowed = True, remaining = 24\<rparr>, ns1)"
    and c1: "counted ns1 userId (Suc 0) (t1 + 86400)"
  proof -
    have f: "kv_get ns t1 (rateKey userId) = None" using fresh ts by simp
    from checkRateLimit_fresh [OF f] show ?thesis using that by blast
  qed
  have le_last: "\<And>x. x \<in> set ts \<Longrightarrow> x \<le> last ts"
    using sorted by (rule sorted_le_last)
  have ge_hd: "\<And>x. x \<in> set ts' \<Longrightarrow> t1 \<le> x" using sorted ts by simp
  have bnd: "\<forall>x \<in> set ts'. x < t + 1 \<and> t + 1 \<le> x + 86400"
  proof
    fix x assume x: "x \<in> set ts'"
    then have "x \<le> last ts" using le_last ts by simp
    moreover have "t1 \<le> x" using ge_hd x .
    ultimately show "x < t + 1 \<and> t + 1 \<le> x + 86400"
      using t ts by (simp add: DAY_IN_SECONDS_def)
  qed
  have b1: "t + 1 \<le> t1 + 86400" using t ts by (simp add: DAY_IN_SECONDS_def)
  obtain ns' e' where
    s2: "admitSeq ns1 userId ts' =
           (map (\<lambda>i. \<lparr>allowed = True, remaining = 24 - int (Suc 0 + i)\<rparr>) [0..<length ts'], ns')"
    and c2: "counted ns' userId (Suc 0 + length ts') e'" and e': "t + 1 \<le> e'"
  proof -
    have "Suc 0 + length ts' \<le> 25" using len' by simp
    from admitSeq_counted [OF c1 b1 bnd this] show ?thesis using that by blast
  qed
  have full: "counted ns' userId 25 e'" using c2 len' by simp
  have denied: "checkRateLimit ns' t userId = (\<lparr>allowed = False, remaining = 0\<rparr>, ns')"
    using checkRateLimit_full [OF full] e' by simp
  have "map (\<lambda>i. \<lparr>allowed = True, remaining = DAILY_LIMIT - int i - 1\<rparr>) [0..<length ts] =
        \<lparr>allowed = True, remaining = 24\<rparr> #
        map (\<lambda>i. \<lparr>allowed = True, remaining = 24 - int (Suc 0 + i)\<rparr>) [0..<length ts']"
    by (simp add: ts upt_rec [of 0] map_Suc_upt [symmetric] DAILY_LIMIT_def del: upt_Suc)
  then have seq: "admitSeq ns userId ts =
      (map (\<lambda>i. \<lparr>allowed = True, remaining = DAILY_LIMIT - int i - 1\<rparr>) [0..<length ts], ns')"
    using s1 s2 ts by simp
  have store: "RATE_LIMIT e = ns'" using e(3) seq by simp
  have "\<not> allowed (fst (checkRateLimit (RATE_LIMIT e) t (userIdOf request)))"
    using denied store request(2) by simp
  from fetch_denied [OF request(1) e(1) e(2) this]
  have handler: "fetch B azure openai t request e = (rateLimited, RATE_LIMIT e, [])" .
  have general: "allowed (fst (checkRateLimit ns0 t0 u0))
          \<or> checkRateLimit ns0 t0 u0 = (\<lparr>allowed = False, remaining = 0\<rparr>, ns0)"
    using denied_unchanged by blast
  show ?thesis using seq denied store handler general by simp
qed

text \<open>
  The theorem at 25 calls of \<^verbatim>\<open>u1\<close> at time 0 on an empty store, and a 26th at time 30.
\<close>

theorem quota_exhausted_after_daily_limit_witness:
  "fst (admitSeq Map.empty (js ''u1'') (replicate 25 0)) =
           map (\<lambda>i. \<lparr>allowed = True, remaining = DAILY_LIMIT - int i - 1\<rparr>) [0..<25]
   \<and> checkRateLimit (snd (admitSeq Map.empty (js ''u1'') (replicate 25 0))) 30 (js ''u1'') =
        (\<lparr>allowed = False, remaining = 0\<rparr>, snd (admitSeq Map.empty (js ''u1'') (replicate 25 0)))
   \<and> fetch (engine []) Rejected Rejected 30 (sample_request (BodyThrows SyntaxError))
        (sample_env (snd (admitSeq Map.empty (js ''u1'') (replicate 25 0))) None) =
        (rateLimited, snd (admitSeq Map.empty (js ''u1'') (replicate 25 0)), [])"
proof -
  have 1: "kv_get Map.empty (hd (replicate 25 0)) (rateKey (js ''u1'')) = None"
    by (simp add: kv_get_def)
  have 2: "length (replicate 25 (0::nat)) = nat DAILY_LIMIT" by (simp add: DAILY_LIMIT_def)
  have 3: "sorted (replicate 25 (0::nat))" by simp
  have 4: "last (replicate 25 (0::nat)) \<le> 30" by simp
  have 5: "(30::nat) < hd (replicate 25 0) + DAY_IN_SECONDS" by (simp add: DAY_IN_SECONDS_def)
  have 6: "http_method (sample_request (BodyThrows SyntaxError)) = js ''POST''"
    by (simp add: sample_request_def)
  have 7: "userIdOf (sample_request (BodyThrows SyntaxError)) = js ''u1''"
    by (simp add: sample_request_def userIdOf_def js_def)
  let ?e = "sample_env (snd (admitSeq Map.empty (js ''u1'') (replicate 25 0))) None"
  have 8: "\<not> falsy_secret (AZURE_TRANSLATOR_KEY ?e)" "\<not> falsy_secret (AZURE_TRANSLATOR_REGION ?e)"
    by (simp_all add: sample_env_def falsy_secret_def js_def)
  have 9: "RATE_LIMIT ?e = snd (admitSeq Map.empty (js ''u1'') (replicate 25 0))"
    by (simp add: sample_env_def)
  from quota_exhausted_after_daily_limit [OF 1 2 3 4 5 6 7 8 9, of "engine []" Rejected Rejected]
  show ?thesis by (simp add: sample_env_def)
qed

lemma readCurrent_after_put:
  assumes "0 \<le> c" "t2 < t + 86400"
  shows "readCurrent (kv_put ns t (rateKey u) (String_num (c + 1)) 86400) t2 u = c + 1"
  using assms by (simp add: readCurrent_def kv_get_def kv_put_def parseInt_String_num)

text \<open>
  Claim C4, as the code has it. An allowed admission returns
  \<^verbatim>\<open>{allowed: true, remaining: N - count - 1}\<close> and stores \<open>count + 1\<close>; the entry it
  writes expires one day after this admission, not one day after the first of the window:
  line 42 passes \<^verbatim>\<open>expirationTtl\<close> on every \<^verbatim>\<open>put\<close>. (The count read is taken
  non-negative, as every count the limiter writes is.)
\<close>

theorem allowed_admission_restarts_the_day:
  assumes "checkRateLimit ns now userId = (r, ns')" and "allowed r"
    and "0 \<le> readCurrent ns now userId"
  shows "r = \<lparr>allowed = True, remaining = DAILY_LIMIT - readCurrent ns now userId - 1\<rparr>
       \<and> readCurrent ns' now userId = readCurrent ns now userId + 1
       \<and> ns' (rateKey userId) =
           Some \<lparr>stored = String_num (readCurrent ns now userId + 1), expiration = now + DAY_IN_SECONDS\<rparr>"
proof -
  let ?c = "readCurrent ns now userId"
  have lt: "?c < 25" using assms(1,2)
    by (auto simp: checkRateLimit_def admitWith_def DAILY_LIMIT_def split: if_splits)
  have "checkRateLimit ns now userId =
          (\<lparr>allowed = True, remaining = 24 - ?c\<rparr>, kv_put ns now (rateKey userId) (String_num (?c + 1)) 86400)"
    using admitWith_allowed [OF assms(3) lt] by (simp add: checkRateLimit_def)
  then have r: "r = \<lparr>allowed = True, remaining = 24 - ?c\<rparr>"
    and s: "ns' = kv_put ns now (rateKey userId) (String_num (?c + 1)) 86400"
    using assms(1) by simp_all
  have "readCurrent ns' now userId = ?c + 1"
    unfolding s using assms(3) by (intro readCurrent_after_put) simp_all
  moreover have "ns' (rateKey userId) =
           Some \<lparr>stored = String_num (?c + 1), expiration = now + DAY_IN_SECONDS\<rparr>"
    unfolding s by (simp add: kv_put_def DAY_IN_SECONDS_def)
  ultimately show ?thesis using r by (simp add: DAILY_LIMIT_def)
qed

lemma readCurrent_empty: "readCurrent Map.empty t u = 0"
  by (simp add: readCurrent_def kv_get_def)

lemma first_admission:
  "checkRateLimit Map.empty t u =
     (\<lparr>allowed = True, remaining = 24\<rparr>, kv_put Map.empty t (rateKey u) (String_num 1) 86400)"
  using admitWith_allowed [of 0 Map.empty t u] by (simp add: checkRateLimit_def readCurrent_empty)

text \<open>
  The theorem at the first admission of \<^verbatim>\<open>u1\<close>, at time 1000.
\<close>

theorem allowed_admission_restarts_the_day_witness:
  "fst (checkRateLimit Map.empty 1000 (js ''u1'')) = \<lparr>allowed = True, remaining = 24\<rparr>
   \<and> readCurrent (snd (checkRateLimit Map.empty 1000 (js ''u1''))) 1000 (js ''u1'') = 1
   \<and> snd (checkRateLimit Map.empty 1000 (js ''u1'')) (rateKey (js ''u1'')) =
        Some \<lparr>stored = String_num 1, expiration = 87400\<rparr>"
proof -
  have 1: "checkRateLimit Map.empty 1000 (js ''u1'') =
           (fst (checkRateLimit Map.empty 1000 (js ''u1'')), snd (checkRateLimit Map.empty 1000 (js ''u1'')))"
    by simp
  have 2: "allowed (fst (checkRateLimit Map.empty 1000 (js ''u1'')))"
    by (simp add: first_admission)
  have 3: "0 \<le> readCurrent Map.empty 1000 (js ''u1'')" by (simp add: readCurrent_empty)
  from allowed_admission_restarts_the_day [OF 1 2 3]
  show ?thesis by (simp add: readCurrent_empty DAILY_LIMIT_def DAY_IN_SECONDS_def)
qed

text \<open>
  Claim C4 as stated fails: \<^verbatim>\<open>u1\<close> is admitted at time 0, which sets the expiry to
  86400, and again at time 1000, which moves it to 87400.
\<close>

theorem expiry_fixed_by_first_admission_counterexample:
  "allowed (fst (checkRateLimit Map.empty 0 (js ''u1'')))
   \<and> allowed (fst (checkRateLimit (snd (checkRateLimit Map.empty 0 (js ''u1''))) 1000 (js ''u1'')))
   \<and> map_option expiration (snd (checkRateLimit Map.empty 0 (js ''u1'')) (rateKey (js ''u1''))) = Some 86400
   \<and> map_option expiration
        (snd (checkRateLimit (snd (checkRateLimit Map.empty 0 (js ''u1''))) 1000 (js ''u1''))
           (rateKey (js ''u1''))) = Some 87400"
proof -
  let ?ns1 = "kv_put Map.empty 0 (rateKey (js ''u1'')) (String_num 1) 86400"
  have c: "readCurrent ?ns1 1000 (js ''u1'') = 1"
    using readCurrent_after_put [of 0 1000 0 Map.empty "js ''u1''"] by simp
  have "checkRateLimit ?ns1 1000 (js ''u1'') =
          (\<lparr>allowed = True, remaining = 23\<rparr>, kv_put ?ns1 1000 (rateKey (js ''u1'')) (String_num 2) 86400)"
    using admitWith_allowed [of 1 ?ns1 1000 "js ''u1''"] by (simp add: checkRateLimit_def c)
  then show ?thesis by (simp add: first_admission kv_put_def)
qed

section \<open>Admission calls that overlap\<close>

lemma resume_reading:
  "i < length calls \<Longrightarrow> calls ! i = (u, Reading) \<Longrightarrow>
   resume i now (ns, calls) = (ns, calls[i := (u, Writing (readCurrent ns now u))])"
  by (simp add: resume_def)

lemma resume_writing:
  "i < length calls \<Longrightarrow> calls ! i = (u, Writing c) \<Longrightarrow>
   resume i now (ns, calls) =
     (snd (admitWith c ns now u), calls[i := (u, Returned (fst (admitWith c ns now u)))])"
  by (simp add: resume_def split: prod.splits)

text \<open>A call that nothing interrupts is \<^verbatim>\<open>checkRateLimit\<close> as defined above.\<close>

lemma run_alone:
  "run [(0, now), (0, now)] (ns, [(userId, Reading)]) =
     (snd (checkRateLimit ns now userId), [(userId, Returned (fst (checkRateLimit ns now userId)))])"
  by (simp add: resume_reading resume_writing checkRateLimit_def)

lemma run_one_after_the_other:
  "run [(0, t1), (0, t1'), (1, t2)] (ns, [(u, Reading), (u, Reading)]) =
     (snd (admitWith (readCurrent ns t1 u) ns t1' u),
      [(u, Returned (fst (admitWith (readCurrent ns t1 u) ns t1' u))),
       (u, Writing (readCurrent (snd (admitWith (readCurrent ns t1 u) ns t1' u)) t2 u))])"
  by (simp add: resume_reading resume_writing)

lemma run_overlapping:
  "run [(0, t1), (1, t2), (0, t1'), (1, t2')] (ns, [(u, Reading), (u, Reading)]) =
     (snd (admitWith (readCurrent ns t2 u) (snd (admitWith (readCurrent ns t1 u) ns t1' u)) t2' u),
      [(u, Returned (fst (admitWith (readCurrent ns t1 u) ns t1' u))),
       (u, Returned (fst (admitWith (readCurrent ns t2 u)
                            (snd (admitWith (readCurrent ns t1 u) ns t1' u)) t2' u)))])"
  by (simp add: resume_reading resume_writing)

text \<open>
  Claim C9, as the code has it. The check and the increment are two steps with a
  suspension between them. When the second call reads after the first has written, and
  the entry is still alive, an allowed first call makes the second read a count one
  higher: two calls that do not overlap are never allowed on the same count.
\<close>

theorem admissions_one_after_the_other:
  assumes run: "run [(0, t1), (0, t1'), (1, t2)] (ns, [(userId, Reading), (userId, Reading)]) =
                  (ns', [(userId, Returned r1), (userId, Writing c2)])"
    and allowed: "allowed r1"
    and count: "0 \<le> readCurrent ns t1 userId"
    and alive: "t2 < t1' + DAY_IN_SECONDS"
  shows "c2 = readCurrent ns t1 userId + 1"
proof -
  let ?c = "readCurrent ns t1 userId"
  have step: "admitWith ?c ns t1' userId = (r1, ns')" "c2 = readCurrent ns' t2 userId"
    using run unfolding run_one_after_the_other by (auto simp: prod_eq_iff)
  then have lt: "?c < 25" using allowed
    by (auto simp: admitWith_def DAILY_LIMIT_def split: if_splits)
  have "ns' = kv_put ns t1' (rateKey userId) (String_num (?c + 1)) 86400"
    using step admitWith_allowed [OF count lt] by simp
  then show ?thesis
    using step readCurrent_after_put [OF count, of t2 t1' ns userId] alive
    by (simp add: DAY_IN_SECONDS_def)
qed

text \<open>
  The theorem at two calls of \<^verbatim>\<open>u1\<close> on an empty store, the second resumed after the
  first has returned.
\<close>

theorem admissions_one_after_the_other_witness:
  "run [(0, 10), (0, 11), (1, 12)] (Map.empty, [(js ''u1'', Reading), (js ''u1'', Reading)]) =
     (kv_put Map.empty 11 (rateKey (js ''u1'')) (String_num 1) 86400,
      [(js ''u1'', Returned \<lparr>allowed = True, remaining = 24\<rparr>), (js ''u1'', Writing 1)])"
proof -
  let ?ns' = "kv_put Map.empty 11 (rateKey (js ''u1'')) (String_num 1) 86400"
  have a: "admitWith 0 Map.empty 11 (js ''u1'') = (\<lparr>allowed = True, remaining = 24\<rparr>, ?ns')"
    using admitWith_allowed [of 0 Map.empty 11 "js ''u1''"] by simp
  have r: "run [(0, 10), (0, 11), (1, 12)] (Map.empty, [(js ''u1'', Reading), (js ''u1'', Reading)]) =
     (?ns', [(js ''u1'', Returned \<lparr>allowed = True, remaining = 24\<rparr>),
             (js ''u1'', Writing (readCurrent ?ns' 12 (js ''u1'')))])"
    unfolding run_one_after_the_other by (simp add: readCurrent_empty a)
  have "readCurrent ?ns' 12 (js ''u1'') = readCurrent Map.empty 10 (js ''u1'') + 1"
    by (rule admissions_one_after_the_other [OF r]) (simp_all add: readCurrent_empty DAY_IN_SECONDS_def)
  then show ?thesis using r by (simp add: readCurrent_empty)
qed

text \<open>
  Claim C9 as stated fails: when both calls read before either writes, both hold the
  count 0, both are allowed with 24 remaining, and the store ends at the count 1.
\<close>

theorem admission_is_atomic_counterexample:
  "run [(0, 10), (1, 10)] (Map.empty, [(js ''u1'', Reading), (js ''u1'', Reading)]) =
     (Map.empty, [(js ''u1'', Writing 0), (js ''u1'', Writing 0)])
   \<and> run [(0, 10), (1, 10), (0, 11), (1, 11)] (Map.empty, [(js ''u1'', Reading), (js ''u1'', Reading)]) =
     (kv_put Map.empty 11 (rateKey (js ''u1'')) (String_num 1) 86400,
      [(js ''u1'', Returned \<lparr>allowed = True, remaining = 24\<rparr>),
       (js ''u1'', Returned \<lparr>allowed = True, remaining = 24\<rparr>)])"
proof -
  have a: "\<And>ns. admitWith 0 ns 11 (js ''u1'') =
            (\<lparr>allowed = True, remaining = 24\<rparr>, kv_put ns 11 (rateKey (js ''u1'')) (String_num 1) 86400)"
    using admitWith_allowed [of 0 _ 11 "js ''u1''"] by simp
  have 1: "run [(0, 10), (1, 10)] (Map.empty, [(js ''u1'', Reading), (js ''u1'', Reading)]) =
     (Map.empty, [(js ''u1'', Writing 0), (js ''u1'', Writing 0)])"
    by (simp add: resume_reading readCurrent_empty)
  have 2: "run [(0, 10), (1, 10), (0, 11), (1, 11)] (Map.empty, [(js ''u1'', Reading), (js ''u1'', Reading)]) =
     (kv_put Map.empty 11 (rateKey (js ''u1'')) (String_num 1) 86400,
      [(js ''u1'', Returned \<lparr>allowed = True, remaining = 24\<rparr>),
       (js ''u1'', Returned \<lparr>allowed = True, remaining = 24\<rparr>)])"
    unfolding run_overlapping by (simp add: readCurrent_empty a) (simp add: kv_put_def)
  show ?thesis using 1 2 by simp
qed

lemma admitSeq_fresh:
  assumes fresh: "kv_get ns t1 (rateKey u) = None"
    and b1: "bound \<le> t1 + 86400"
    and bnd: "\<forall>x \<in> set ts'. x < bound \<and> bound \<le> x + 86400"
    and len: "Suc (length ts') \<le> 25"
  shows "\<exists>ns' e'. admitSeq ns u (t1 # ts') =
            (map (\<lambda>i. \<lparr>allowed = True, remaining = 24 - int i\<rparr>) [0..<Suc (length ts')], ns')
          \<and> counted ns' u (Suc (length ts')) e' \<and> bound \<le> e'"
proof -
  obtain ns1 where s1: "checkRateLimit ns t1 u = (\<lparr>allowed = True, remaining = 24\<rparr>, ns1)"
    and c1: "counted ns1 u (Suc 0) (t1 + 86400)"
    using checkRateLimit_fresh [OF fresh] by blast
  have "Suc 0 + length ts' \<le> 25" using len by simp
  from admitSeq_counted [OF c1 b1 bnd this] obtain ns' e' where
    s2: "admitSeq ns1 u ts' =
           (map (\<lambda>i. \<lparr>allowed = True, remaining = 24 - int (Suc 0 + i)\<rparr>) [0..<length ts'], ns')"
    and c2: "counted ns' u (Suc 0 + length ts') e'" "bound \<le> e'"
    by blast
  have "map (\<lambda>i. \<lparr>allowed = True, remaining = 24 - int i\<rparr>) [0..<Suc (length ts')] =
        \<lparr>allowed = True, remaining = 24\<rparr> #
        map (\<lambda>i. \<lparr>allowed = True, remaining = 24 - int (Suc 0 + i)\<rparr>) [0..<length ts']"
    by (simp add: upt_rec [of 0] map_Suc_upt [symmetric] del: upt_Suc)
  then have "admitSeq ns u (t1 # ts') =
            (map (\<lambda>i. \<lparr>allowed = True, remaining = 24 - int i\<rparr>) [0..<Suc (length ts')], ns')"
    using s1 s2 by (simp del: upt_Suc)
  moreover have "counted ns' u (Suc (length ts')) e'" using c2(1) by simp
  ultimately show ?thesis using c2(2) by blast
qed

text \<open>
  Claim C3 as stated fails when admissions overlap: \<^verbatim>\<open>u1\<close> is admitted 24 times, one call
  after the other, and then makes two calls that both read before either writes. Both
  read the count 24 and both are allowed, with 0 remaining: the 26th admission of the
  window is allowed, and the count ends at 25.
\<close>

theorem twenty_sixth_admission_is_denied_counterexample:
  "fst (admitSeq Map.empty (js ''u1'') (10 # replicate 23 10)) =
     map (\<lambda>i. \<lparr>allowed = True, remaining = 24 - int i\<rparr>) [0..<24]
   \<and> snd (run [(0, 10), (1, 10), (0, 11), (1, 11)]
            (snd (admitSeq Map.empty (js ''u1'') (10 # replicate 23 10)),
             [(js ''u1'', Reading), (js ''u1'', Reading)])) =
       [(js ''u1'', Returned \<lparr>allowed = True, remaining = 0\<rparr>),
        (js ''u1'', Returned \<lparr>allowed = True, remaining = 0\<rparr>)]
   \<and> readCurrent (fst (run [(0, 10), (1, 10), (0, 11), (1, 11)]
            (snd (admitSeq Map.empty (js ''u1'') (10 # replicate 23 10)),
             [(js ''u1'', Reading), (js ''u1'', Reading)]))) 12 (js ''u1'') = 25"
proof -
  let ?u = "js ''u1''"
  let ?ns = "snd (admitSeq Map.empty ?u (10 # replicate 23 10))"
  have f: "kv_get Map.empty 10 (rateKey ?u) = None" by (simp add: kv_get_def)
  have b: "(12::nat) \<le> 10 + 86400" by simp
  have bnd: "\<forall>x \<in> set (replicate 23 (10::nat)). x < 12 \<and> 12 \<le> x + 86400" by simp
  have len: "Suc (length (replicate 23 (10::nat))) \<le> 25" by simp
  obtain ns' e' where
    s: "admitSeq Map.empty ?u (10 # replicate 23 10) =
          (map (\<lambda>i. \<lparr>allowed = True, remaining = 24 - int i\<rparr>)
             [0..<Suc (length (replicate 23 (10::nat)))], ns')"
    and c: "counted ns' ?u (Suc (length (replicate 23 (10::nat)))) e'" and e': "12 \<le> e'"
    using admitSeq_fresh [OF f b bnd len] by blast
  have ns: "?ns = ns'" using s by simp
  have c24: "counted ?ns ?u 24 e'" using c ns by simp
  have r10: "readCurrent ?ns 10 ?u = 24"
    using readCurrent_counted [OF c24, of 10] e' by simp
  have a: "\<And>ns. admitWith 24 ns 11 ?u =
            (\<lparr>allowed = True, remaining = 0\<rparr>, kv_put ns 11 (rateKey ?u) (String_num 25) 86400)"
    using admitWith_allowed [of 24 _ 11 ?u] by simp
  have 1: "fst (admitSeq Map.empty ?u (10 # replicate 23 10)) =
     map (\<lambda>i. \<lparr>allowed = True, remaining = 24 - int i\<rparr>) [0..<24]"
    using s by simp
  have 2: "run [(0, 10), (1, 10), (0, 11), (1, 11)] (?ns, [(?u, Reading), (?u, Reading)]) =
       (kv_put (kv_put ?ns 11 (rateKey ?u) (String_num 25) 86400) 11 (rateKey ?u) (String_num 25) 86400,
        [(?u, Returned \<lparr>allowed = True, remaining = 0\<rparr>),
         (?u, Returned \<lparr>allowed = True, remaining = 0\<rparr>)])"
    unfolding run_overlapping r10 a by simp
  have 3: "readCurrent (kv_put (kv_put ?ns 11 (rateKey ?u) (String_num 25) 86400) 11 (rateKey ?u)
             (String_num 25) 86400) 12 ?u = 25"
    using readCurrent_after_put [of 24 12 11 _ ?u] by simp
  show ?thesis using 1 unfolding 2 using 3 by simp
qed

section \<open>Validation comes after admission\<close>

lemma translateRequest_invalid:
  "invalidPayload p \<Longrightarrow>
   translateRequest B azure openai openaiKey rateCheck (Body p) = (invalidRequest, [])"
  by (simp add: translateRequest_def)

lemma refineWithLLM_no_key:
  "falsy_secret openaiKey \<Longrightarrow> refineWithLLM B openaiKey openai provided = (provided, [])"
  by (simp add: refineWithLLM_def falsy_secret_def)

lemma translateRequest_status:
  "\<not> invalidPayload p \<Longrightarrow>
   resp_status (fst (translateRequest B azure openai openaiKey rateCheck (Body p))) = 200
   \<or> resp_status (fst (translateRequest B azure openai openaiKey rateCheck (Body p))) = 502"
  by (auto simp: translateRequest_def translationError_def
           split: layers_value.splits option.splits json.splits prod.splits sum.splits)

lemma fetch_invalid:
  assumes "http_method request = js ''POST''"
    and "\<not> falsy_secret (AZURE_TRANSLATOR_KEY e)" "\<not> falsy_secret (AZURE_TRANSLATOR_REGION e)"
    and "allowed (fst (checkRateLimit (RATE_LIMIT e) now (userIdOf request)))"
    and "body request = Body p" "invalidPayload p"
  shows "fetch B azure openai now request e =
           (invalidRequest, snd (checkRateLimit (RATE_LIMIT e) now (userIdOf request)), [])"
proof -
  have "checkRateLimit (RATE_LIMIT e) now (userIdOf request) =
          (fst (checkRateLimit (RATE_LIMIT e) now (userIdOf request)),
           snd (checkRateLimit (RATE_LIMIT e) now (userIdOf request)))" by simp
  from fetch_admitted [OF assms(1-3) this assms(4)] show ?thesis
    using assms(5,6) by (simp add: translateRequest_invalid)
qed

text \<open>
  Claim C2, as the code has it. The handler admits the caller (line 428) before it reads
  the body (line 447). A request of a caller with quota left whose body fails the check
  of line 449 is answered with status 400 and reaches no translation stage, and the
  admission stands: the stored count of the caller is one higher than before.
\<close>

theorem invalid_request_is_counted:
  assumes "http_method request = js ''POST''"
    and "\<not> falsy_secret (AZURE_TRANSLATOR_KEY e)" "\<not> falsy_secret (AZURE_TRANSLATOR_REGION e)"
    and "body request = Body p" "invalidPayload p"
    and "0 \<le> readCurrent (RATE_LIMIT e) now (userIdOf request)"
    and "readCurrent (RATE_LIMIT e) now (userIdOf request) < DAILY_LIMIT"
  shows "fst (fetch B azure openai now request e) = invalidRequest
       \<and> resp_status (fst (fetch B azure openai now request e)) = 400
       \<and> snd (snd (fetch B azure openai now request e)) = []
       \<and> readCurrent (fst (snd (fetch B azure openai now request e))) now (userIdOf request) =
           readCurrent (RATE_LIMIT e) now (userIdOf request) + 1"
proof -
  let ?u = "userIdOf request"
  let ?c = "readCurrent (RATE_LIMIT e) now ?u"
  have lt: "?c < 25" using assms(7) by (simp add: DAILY_LIMIT_def)
  have adm: "checkRateLimit (RATE_LIMIT e) now ?u =
          (\<lparr>allowed = True, remaining = 24 - ?c\<rparr>,
           kv_put (RATE_LIMIT e) now (rateKey ?u) (String_num (?c + 1)) 86400)"
    using admitWith_allowed [OF assms(6) lt] by (simp add: checkRateLimit_def)
  then have "allowed (fst (checkRateLimit (RATE_LIMIT e) now ?u))" by simp
  from fetch_invalid [OF assms(1-3) this assms(4,5)]
  have f: "fetch B azure openai now request e =
             (invalidRequest, kv_put (RATE_LIMIT e) now (rateKey ?u) (String_num (?c + 1)) 86400, [])"
    using adm by simp
  have "readCurrent (kv_put (RATE_LIMIT e) now (rateKey ?u) (String_num (?c + 1)) 86400) now ?u = ?c + 1"
    using assms(6) by (intro readCurrent_after_put) simp_all
  then show ?thesis using f by (simp add: invalidRequest_def)
qed

lemma userIdOf_sample: "userIdOf (sample_request b) = js ''u1''"
  by (simp add: sample_request_def userIdOf_def js_def)

lemma sample_admitted:
  "allowed (fst (checkRateLimit (RATE_LIMIT (sample_env Map.empty k)) now (userIdOf (sample_request b))))"
  by (simp add: sample_env_def first_admission)

lemma sample_configured:
  "http_method (sample_request b) = js ''POST''"
  "body (sample_request b) = b"
  "\<not> falsy_secret (AZURE_TRANSLATOR_KEY (sample_env ns k))"
  "\<not> falsy_secret (AZURE_TRANSLATOR_REGION (sample_env ns k))"
  "RATE_LIMIT (sample_env ns k) = ns"
  "OPENAI_API_KEY (sample_env ns k) = k"
  by (simp_all add: sample_request_def sample_env_def falsy_secret_def js_def)

text \<open>
  The theorem at a request of \<^verbatim>\<open>u1\<close> without \<^verbatim>\<open>textLayers\<close> and \<^verbatim>\<open>targetLocale\<close>, on an
  empty store.
\<close>

theorem invalid_request_is_counted_witness:
  "fst (fetch (engine []) Rejected Rejected 0 (sample_request (Body no_payload)) (sample_env Map.empty None))
     = invalidRequest
   \<and> snd (snd (fetch (engine []) Rejected Rejected 0 (sample_request (Body no_payload))
                  (sample_env Map.empty None))) = []
   \<and> readCurrent (fst (snd (fetch (engine []) Rejected Rejected 0 (sample_request (Body no_payload))
                               (sample_env Map.empty None)))) 0 (js ''u1'') = 1"
proof -
  have p: "invalidPayload no_payload" by (simp add: invalidPayload_def no_payload_def)
  have c: "0 \<le> readCurrent (RATE_LIMIT (sample_env Map.empty None)) 0 (userIdOf (sample_request (Body no_payload)))"
    "readCurrent (RATE_LIMIT (sample_env Map.empty None)) 0 (userIdOf (sample_request (Body no_payload))) < DAILY_LIMIT"
    by (simp_all add: sample_configured readCurrent_empty DAILY_LIMIT_def)
  from invalid_request_is_counted [where B = "engine []" and azure = Rejected and openai = Rejected,
      OF sample_configured(1) sample_configured(3,4) sample_configured(2) p c]
  show ?thesis by (simp add: sample_configured readCurrent_empty userIdOf_sample)
qed

text \<open>
  Claim C2 as stated fails: the same request is answered with status 400, and the count
  of \<^verbatim>\<open>u1\<close> is 0 before it and 1 after it.
\<close>

theorem invalid_request_keeps_quota_counterexample:
  "resp_status (fst (fetch (engine []) Rejected Rejected 0 (sample_request (Body no_payload))
                       (sample_env Map.empty None))) = 400
   \<and> readCurrent (RATE_LIMIT (sample_env Map.empty None)) 0 (js ''u1'') = 0
   \<and> readCurrent (fst (snd (fetch (engine []) Rejected Rejected 0 (sample_request (Body no_payload))
                               (sample_env Map.empty None)))) 0 (js ''u1'') = 1"
proof -
  have p: "invalidPayload no_payload" by (simp add: invalidPayload_def no_payload_def)
  have f: "fetch (engine []) Rejected Rejected 0 (sample_request (Body no_payload)) (sample_env Map.empty None)
           = (invalidRequest, kv_put Map.empty 0 (rateKey (js ''u1'')) (String_num 1) 86400, [])"
    using fetch_invalid [where request = "sample_request (Body no_payload)"
          and e = "sample_env Map.empty None" and now = 0 and B = "engine []"
          and azure = Rejected and openai = Rejected,
        OF sample_configured(1) sample_configured(3,4) sample_admitted sample_configured(2) p]
    by (simp add: sample_configured userIdOf_sample first_admission)
  have "readCurrent (kv_put Map.empty 0 (rateKey (js ''u1'')) (String_num 1) 86400) 0 (js ''u1'') = 1"
    using readCurrent_after_put [of 0 0 0 Map.empty "js ''u1''"] by simp
  then show ?thesis using f by (simp add: invalidRequest_def sample_configured readCurrent_empty)
qed

text \<open>
  Claim C8, as the code has it. For an admitted caller, the validation of line 449
  rejects with status 400, before any translation stage, exactly the payloads whose
  \<^verbatim>\<open>textLayers\<close> is missing, falsy or not an array, or whose \<^verbatim>\<open>targetLocale\<close> is missing
  or falsy. Every other payload goes on to the translation stages and is answered with
  200 or 502: nothing bounds the number of items or the length of a text.
\<close>

theorem validation_checks_shape_only:
  assumes "http_method request = js ''POST''"
    and "\<not> falsy_secret (AZURE_TRANSLATOR_KEY e)" "\<not> falsy_secret (AZURE_TRANSLATOR_REGION e)"
    and "allowed (fst (checkRateLimit (RATE_LIMIT e) now (userIdOf request)))"
    and "body request = Body p"
  shows "if invalidPayload p
         then fetch B azure openai now request e =
                (invalidRequest, snd (checkRateLimit (RATE_LIMIT e) now (userIdOf request)), [])
              \<and> resp_status invalidRequest = 400
         else resp_status (fst (fetch B azure openai now request e)) = 200
              \<or> resp_status (fst (fetch B azure openai now request e)) = 502"
proof (cases "invalidPayload p")
  case True
  then show ?thesis using fetch_invalid [OF assms(1-5)] by (simp add: invalidRequest_def)
next
  case False
  have "checkRateLimit (RATE_LIMIT e) now (userIdOf request) =
          (fst (checkRateLimit (RATE_LIMIT e) now (userIdOf request)),
           snd (checkRateLimit (RATE_LIMIT e) now (userIdOf request)))" by simp
  from fetch_admitted [OF assms(1-3) this assms(4)]
  have "fetch B azure openai now request e =
          (fst (translateRequest B azure openai (OPENAI_API_KEY e)
                  (fst (checkRateLimit (RATE_LIMIT e) now (userIdOf request))) (Body p)),
           snd (checkRateLimit (RATE_LIMIT e) now (userIdOf request)),
           snd (translateRequest B azure openai (OPENAI_API_KEY e)
                  (fst (checkRateLimit (RATE_LIMIT e) now (userIdOf request))) (Body p)))"
    using assms(5) by simp
  then show ?thesis using False translateRequest_status [OF False] by simp
qed

lemma english_passes_through:
  "translateRequest B azure openai None rateCheck (Body (english_payload layers)) =
     (\<lparr>resp_status = 200,
       resp_body = Translations
         (map (\<lambda>l. Some \<lparr>id_result = id_layer l, translated = Str (text_layer l)\<rparr>) layers),
       X_RateLimit_Remaining = Some (String_num (remaining rateCheck))\<rparr>, [])"
  by (simp add: translateRequest_def english_payload_def invalidPayload_def providerStage_def
        refineWithLLM_def js_def)

lemma fetch_english:
  "resp_status (fst (fetch B azure openai now (sample_request (Body (english_payload layers)))
                       (sample_env Map.empty None))) = 200"
proof -
  let ?r = "sample_request (Body (english_payload layers))"
  let ?e = "sample_env Map.empty None"
  have "checkRateLimit (RATE_LIMIT ?e) now (userIdOf ?r) =
          (fst (checkRateLimit (RATE_LIMIT ?e) now (userIdOf ?r)),
           snd (checkRateLimit (RATE_LIMIT ?e) now (userIdOf ?r)))" by simp
  from fetch_admitted [OF sample_configured(1) sample_configured(3,4) this sample_admitted]
  show ?thesis by (simp add: sample_configured english_passes_through)
qed

text \<open>
  The theorem at a payload without fields, and at a payload with an empty array and the
  locale \<^verbatim>\<open>en\<close>.
\<close>

theorem validation_checks_shape_only_witness:
  "fetch (engine []) Rejected Rejected 0 (sample_request (Body no_payload)) (sample_env Map.empty None) =
     (invalidRequest, snd (checkRateLimit Map.empty 0 (js ''u1'')), [])
   \<and> resp_status invalidRequest = 400
   \<and> resp_status (fst (fetch (engine []) Rejected Rejected 0 (sample_request (Body (english_payload [])))
                         (sample_env Map.empty None))) = 200"
proof -
  have p: "invalidPayload no_payload" by (simp add: invalidPayload_def no_payload_def)
  have q: "\<not> invalidPayload (english_payload [])"
    by (simp add: invalidPayload_def english_payload_def js_def)
  from validation_checks_shape_only [where request = "sample_request (Body no_payload)"
      and e = "sample_env Map.empty None" and now = 0 and B = "engine []"
      and azure = Rejected and openai = Rejected,
      OF sample_configured(1) sample_configured(3,4) sample_admitted sample_configured(2)]
  have 1: "fetch (engine []) Rejected Rejected 0 (sample_request (Body no_payload)) (sample_env Map.empty None) =
     (invalidRequest, snd (checkRateLimit Map.empty 0 (js ''u1'')), []) \<and> resp_status invalidRequest = 400"
    using p by (simp add: sample_configured userIdOf_sample)
  from validation_checks_shape_only [where request = "sample_request (Body (english_payload []))"
      and e = "sample_env Map.empty None" and now = 0 and B = "engine []"
      and azure = Rejected and openai = Rejected,
      OF sample_configured(1) sample_configured(3,4) sample_admitted sample_configured(2)]
  have 2: "resp_status (fst (fetch (engine []) Rejected Rejected 0 (sample_request (Body (english_payload [])))
                         (sample_env Map.empty None))) = 200"
    using q fetch_english [of "engine []" Rejected Rejected 0 "[]"] by simp
  show ?thesis using 1 2 by simp
qed

text \<open>
  Claim C8 as stated fails: whatever the two bounds, a payload with more items and
  longer texts than that is answered with status 200.
\<close>

theorem size_limits_counterexample:
  "\<not> (\<exists>maxItems maxChars. \<forall>layers.
         (maxItems < length layers \<or> (\<exists>l \<in> set layers. maxChars < length (text_layer l)))
         \<longrightarrow> resp_status (fst (fetch (engine []) Rejected Rejected 0
                                  (sample_request (Body (english_payload layers)))
                                  (sample_env Map.empty None))) = 400)"
proof
  assume "\<exists>maxItems maxChars. \<forall>layers.
         (maxItems < length layers \<or> (\<exists>l \<in> set layers. maxChars < length (text_layer l)))
         \<longrightarrow> resp_status (fst (fetch (engine []) Rejected Rejected 0
                                  (sample_request (Body (english_payload layers)))
                                  (sample_env Map.empty None))) = 400"
  then obtain maxItems maxChars where lim: "\<forall>layers.
         (maxItems < length layers \<or> (\<exists>l \<in> set layers. maxChars < length (text_layer l)))
         \<longrightarrow> resp_status (fst (fetch (engine []) Rejected Rejected 0
                                  (sample_request (Body (english_payload layers)))
                                  (sample_env Map.empty None))) = 400"
    by blast
  define big where "big = replicate (Suc maxItems)
     \<lparr>id_layer = js ''a'', layerName = js ''Heading'', text_layer = replicate (Suc maxChars) 97\<rparr>"
  have "maxItems < length big" by (simp add: big_def)
  then have "resp_status (fst (fetch (engine []) Rejected Rejected 0
                                  (sample_request (Body (english_payload big)))
                                  (sample_env Map.empty None))) = 400"
    using lim by blast
  then show False by (simp add: fetch_english)
qed

section \<open>The provider adapter fills every slot\<close>

lemma zip_upt_Cons: "zip [i..<Suc (i + n)] (x # xs) = (i, x) # zip [Suc i..<Suc (i + n)] xs"
  by (simp add: upt_conv_Cons)

lemma splitLayers_isl:
  "isl (splitLayers B loc i rest results az) = (\<exists>l \<in> set rest. lookupThrows B loc l)"
  by (induction rest arbitrary: i results az)
     (auto simp: lookupThrows_def split: sum.splits option.splits)

lemma splitLayers_azureLayers:
  "splitLayers B loc i rest results az = Inr (res', az') \<Longrightarrow>
   az' = az @ filter (\<lambda>(j, l). miss B loc l) (zip [i..<i + length rest] rest)"
proof (induction rest arbitrary: i results az)
  case Nil
  then show ?case by simp
next
  case (Cons layer rest)
  show ?case
  proof (cases "lookupAbbrev B (text_layer layer) loc")
    case (Inl e)
    then show ?thesis using Cons.prems by simp
  next
    case (Inr m)
    show ?thesis
    proof (cases m)
      case None
      with Inr Cons.prems
      have "splitLayers B loc (Suc i) rest results (az @ [(i, layer)]) = Inr (res', az')" by simp
      from Cons.IH [OF this] show ?thesis
        using Inr None by (simp add: zip_upt_Cons miss_def del: upt_Suc)
    next
      case (Some d)
      with Inr Cons.prems
      have "splitLayers B loc (Suc i) rest
              (results[i := Some \<lparr>id_result = id_layer layer, translated = d\<rparr>]) az = Inr (res', az')"
        by simp
      from Cons.IH [OF this] show ?thesis
        using Inr Some by (simp add: zip_upt_Cons miss_def del: upt_Suc)
    qed
  qed
qed

lemma splitLayers_results:
  assumes "splitLayers B loc i rest results az = Inr (res', az')"
    and "i + length rest \<le> length results"
  shows "length res' = length results
       \<and> (\<forall>j < length results.
            res' ! j =
              (if i \<le> j \<and> j < i + length rest then
                 (case lookupAbbrev B (text_layer (rest ! (j - i))) loc of
                    Inr (Some d) \<Rightarrow> Some \<lparr>id_result = id_layer (rest ! (j - i)), translated = d\<rparr>
                  | _ \<Rightarrow> results ! j)
               else results ! j))"
  using assms
proof (induction rest arbitrary: i results az)
  case Nil
  then show ?case by auto
next
  case (Cons layer rest)
  show ?case
  proof (cases "lookupAbbrev B (text_layer layer) loc")
    case (Inl e)
    then show ?thesis using Cons.prems by simp
  next
    case (Inr m)
    show ?thesis
    proof (cases m)
      case None
      with Inr Cons.prems
      have s: "splitLayers B loc (Suc i) rest results (az @ [(i, layer)]) = Inr (res', az')" by simp
      have "Suc i + length rest \<le> length results" using Cons.prems by simp
      from Cons.IH [OF s this] show ?thesis
        using Inr None by (auto simp: nth_Cons' Suc_diff_le split: sum.splits option.splits)
    next
      case (Some d)
      let ?r = "results[i := Some \<lparr>id_result = id_layer layer, translated = d\<rparr>]"
      from Some Inr Cons.prems
      have s: "splitLayers B loc (Suc i) rest ?r az = Inr (res', az')" by simp
      have "Suc i + length rest \<le> length ?r" using Cons.prems by simp
      from Cons.IH [OF s this] show ?thesis
        using Inr Some Cons.prems(2)
        by (auto simp: nth_Cons' Suc_diff_le nth_list_update split: sum.splits option.splits)
    qed
  qed
qed

lemma mergeAzure_results:
  assumes "mergeAzure azureResults k az results = Inr res'"
    and "\<forall>(j, l) \<in> set az. j < length results"
  shows "length res' = length results
       \<and> (\<forall>j < length results.
            if j \<in> fst ` set az
            then \<exists>l s. (j, l) \<in> set az \<and> res' ! j = Some \<lparr>id_result = id_layer l, translated = Str s\<rparr>
            else res' ! j = results ! j)"
  using assms
proof (induction az arbitrary: k results)
  case Nil
  then show ?case by simp
next
  case (Cons a az)
  obtain oi layer where a: "a = (oi, layer)" by (cases a)
  from Cons.prems(1) a obtain s where
    m: "mergeAzure azureResults (k + 1) az
          (results[oi := Some \<lparr>id_result = id_layer layer, translated = Str s\<rparr>]) = Inr res'"
    by (auto simp: Let_def split: if_splits sum.splits)
  let ?r = "results[oi := Some \<lparr>id_result = id_layer layer, translated = Str s\<rparr>]"
  have "\<forall>(j, l) \<in> set az. j < length ?r" using Cons.prems(2) by auto
  from Cons.IH [OF m this]
  have len: "length res' = length results"
    and ih: "\<And>j. j < length results \<Longrightarrow>
            (if j \<in> fst ` set az
             then \<exists>l s. (j, l) \<in> set az \<and> res' ! j = Some \<lparr>id_result = id_layer l, translated = Str s\<rparr>
             else res' ! j = ?r ! j)"
    by (auto split del: if_split)
  have oi: "oi < length results" using Cons.prems(2) a by simp
  show ?case
  proof (intro conjI allI impI)
    show "length res' = length results" by (rule len)
  next
    fix j assume j: "j < length results"
    show "if j \<in> fst ` set (a # az)
          then \<exists>l s. (j, l) \<in> set (a # az) \<and> res' ! j = Some \<lparr>id_result = id_layer l, translated = Str s\<rparr>
          else res' ! j = results ! j"
    proof (cases "j \<in> fst ` set az")
      case True
      then show ?thesis using ih [OF j] by auto
    next
      case False
      then have r: "res' ! j = ?r ! j" using ih [OF j] by simp
      show ?thesis
      proof (cases "j = oi")
        case True
        then show ?thesis using r oi a by auto
      next
        case False
        then show ?thesis using r a \<open>j \<notin> fst ` set az\<close> by auto
      qed
    qed
  qed
qed


lemma in_zip_upt: "(j, l) \<in> set (zip [0..<length xs] xs) \<longleftrightarrow> j < length xs \<and> l = xs ! j"
proof
  assume "(j, l) \<in> set (zip [0..<length xs] xs)"
  then show "j < length xs \<and> l = xs ! j" by (auto simp: in_set_zip)
next
  assume a: "j < length xs \<and> l = xs ! j"
  then have "[0..<length xs] ! j = j \<and> xs ! j = l \<and> j < length [0..<length xs] \<and> j < length xs"
    by simp
  then show "(j, l) \<in> set (zip [0..<length xs] xs)" unfolding in_set_zip by force
qed

lemma translateWithAzure_ids:
  assumes "fst (translateWithAzure B azure layers loc) = Inr res"
  shows "map (map_option id_result) res = map (\<lambda>l. Some (id_layer l)) layers"
proof -
  let ?n = "length layers"
  obtain res0 az where
    split: "splitLayers B loc 0 layers (replicate ?n None) [] = Inr (res0, az)"
    using assms by (cases "splitLayers B loc 0 layers (replicate ?n None) []")
                   (auto simp: translateWithAzure_def)
  have nothrow: "\<And>l. l \<in> set layers \<Longrightarrow> \<not> lookupThrows B loc l"
    using splitLayers_isl [of B loc 0 layers "replicate ?n None" "[]"] split by auto
  have az: "az = filter (\<lambda>(j, l). miss B loc l) (zip [0..<?n] layers)"
    using splitLayers_azureLayers [OF split] by simp
  have in_az: "\<And>j l. (j, l) \<in> set az \<longleftrightarrow> j < ?n \<and> l = layers ! j \<and> miss B loc l"
    unfolding az by (auto simp: in_zip_upt)
  have len0: "length res0 = ?n"
    and res0: "\<And>j. j < ?n \<Longrightarrow> res0 ! j =
         (case lookupAbbrev B (text_layer (layers ! j)) loc of
            Inr (Some d) \<Rightarrow> Some \<lparr>id_result = id_layer (layers ! j), translated = d\<rparr>
          | _ \<Rightarrow> None)"
    using splitLayers_results [OF split] by (auto split: sum.splits option.splits)
  have hit: "\<And>j. j < ?n \<Longrightarrow> \<not> miss B loc (layers ! j) \<Longrightarrow>
         \<exists>d. res0 ! j = Some \<lparr>id_result = id_layer (layers ! j), translated = d\<rparr>"
  proof -
    fix j assume j: "j < ?n" and nm: "\<not> miss B loc (layers ! j)"
    have "\<not> lookupThrows B loc (layers ! j)" using nothrow j by simp
    then obtain d where "lookupAbbrev B (text_layer (layers ! j)) loc = Inr (Some d)"
      using nm by (cases "lookupAbbrev B (text_layer (layers ! j)) loc")
                  (auto simp: miss_def lookupThrows_def)
    then show "\<exists>d. res0 ! j = Some \<lparr>id_result = id_layer (layers ! j), translated = d\<rparr>"
      using res0 [OF j] by simp
  qed
  have final: "length res = ?n \<and>
      (\<forall>j < ?n. \<exists>d. res ! j = Some \<lparr>id_result = id_layer (layers ! j), translated = d\<rparr>)"
  proof (cases "az = []")
    case True
    then have "res = res0" using assms split by (simp add: translateWithAzure_def)
    moreover have "\<And>j. j < ?n \<Longrightarrow> \<not> miss B loc (layers ! j)"
      using True in_az by (metis empty_iff list.set(1))
    ultimately show ?thesis using len0 hit by simp
  next
    case False
    then obtain azureResults where merge: "mergeAzure azureResults 0 az res0 = Inr res"
      using assms split
      by (auto simp: translateWithAzure_def Let_def
               split: fetch_outcome.splits option.splits if_splits)
    have "\<forall>(j, l) \<in> set az. j < length res0" using in_az len0 by auto
    from mergeAzure_results [OF merge this]
    have len: "length res = ?n"
      and m: "\<And>j. j < ?n \<Longrightarrow>
            (if j \<in> fst ` set az
             then \<exists>l s. (j, l) \<in> set az \<and> res ! j = Some \<lparr>id_result = id_layer l, translated = Str s\<rparr>
             else res ! j = res0 ! j)"
      using len0 by (auto split del: if_split)
    have "\<And>j. j < ?n \<Longrightarrow> \<exists>d. res ! j = Some \<lparr>id_result = id_layer (layers ! j), translated = d\<rparr>"
    proof -
      fix j assume j: "j < ?n"
      show "\<exists>d. res ! j = Some \<lparr>id_result = id_layer (layers ! j), translated = d\<rparr>"
      proof (cases "j \<in> fst ` set az")
        case True
        then obtain l s where "(j, l) \<in> set az"
          "res ! j = Some \<lparr>id_result = id_layer l, translated = Str s\<rparr>"
          using m [OF j] by auto
        then show ?thesis using in_az by auto
      next
        case False
        then have "\<not> miss B loc (layers ! j)" using in_az j by force
        then show ?thesis using hit [OF j] m [OF j] False by simp
      qed
    qed
    then show ?thesis using len by simp
  qed
  show ?thesis
  proof (rule nth_equalityI)
    show "length (map (map_option id_result) res) = length (map (\<lambda>l. Some (id_layer l)) layers)"
      using final by simp
  next
    fix j assume "j < length (map (map_option id_result) res)"
    then have j: "j < ?n" using final by simp
    then obtain d where "res ! j = Some \<lparr>id_result = id_layer (layers ! j), translated = d\<rparr>"
      using final by blast
    then show "map (map_option id_result) res ! j = map (\<lambda>l. Some (id_layer l)) layers ! j"
      using j final by simp
  qed
qed


lemma js_eq [simp]: "js s = js t \<longleftrightarrow> s = t"
  by (simp add: js_def inj_map_eq_map inj_on_def)

lemma js_Nil [simp]: "js s = [] \<longleftrightarrow> s = []" "[] = js s \<longleftrightarrow> s = []"
  by (auto simp: js_def)

lemma trim_Welcome: "trim (js ''Welcome'') = js ''Welcome''"
  by (simp add: trim_def trimEnd_def js_def isWhiteSpace_def)

lemma upper_Welcome: "map asciiUpper (js ''Welcome'') = js ''WELCOME''"
  by (simp add: js_def asciiUpper_def)

lemma lookup_Welcome: "lookupAbbrev (engine []) (js ''Welcome'') loc = Inr None"
  by (simp add: lookupAbbrev_def engine_def trim_Welcome upper_Welcome ABBREV_DICT_def)


lemma trim_JAN: "trim (js ''JAN'') = js ''JAN''"
  by (simp add: trim_def trimEnd_def js_def isWhiteSpace_def)

lemma upper_JAN: "map asciiUpper (js ''JAN'') = js ''JAN''"
  by (simp add: js_def asciiUpper_def)

lemma upper_JANV: "map asciiUpper (js ''JANV'') = js ''JANV''"
  by (simp add: js_def asciiUpper_def)

lemma lookup_JAN: "lookupAbbrev (engine []) (js ''JAN'') (js ''fr'') = Inr (Some (Str (js ''JANV'')))"
  by (simp add: lookupAbbrev_def engine_def trim_JAN upper_JAN upper_JANV ABBREV_DICT_def property_def)

lemma strip_Bienvenue:
  "stripContext (JStr (js ''[Titre] Bienvenue'')) (js ''Heading'') = Inr (js ''Bienvenue'')"
  by (simp add: stripContext_def js_def trim_def trimEnd_def isWhiteSpace_def)

lemma translate_sample:
  "translateWithAzure (engine []) azure_reply sample_layers (js ''fr'') =
     (Inr [Some \<lparr>id_result = js ''a'', translated = Str (js ''Bienvenue'')\<rparr>,
           Some \<lparr>id_result = js ''b'', translated = Str (js ''JANV'')\<rparr>],
      [AzureCall (js ''fr'') [js ''[Heading] Welcome'']])"
  by (simp add: translateWithAzure_def sample_layers_def azure_reply_def lookup_Welcome lookup_JAN
        strip_Bienvenue contextText_def)
     (simp add: js_def)





lemma mergeRefined_ids:
  "map (map_option id_result) (mergeRefined m rs) = map (map_option id_result) rs"
  by (simp add: mergeRefined_def option.map_comp comp_def)

lemma refineWithLLM_ids:
  "map (map_option id_result) (fst (refineWithLLM B k openai rs)) = map (map_option id_result) rs"
  by (simp add: refineWithLLM_def mergeById_def mergeRefined_ids
           split: fetch_outcome.splits option.splits sum.splits json.splits)

lemma providerStage_ids:
  assumes "fst (providerStage B azure layers loc) = Inr res"
  shows "map (map_option id_result) res = map (\<lambda>l. Some (id_layer l)) layers"
proof (cases "loc = js ''en'' \<or> take 3 loc = js ''en-''")
  case True
  then have "res = map (\<lambda>l. Some \<lparr>id_result = id_layer l, translated = Str (text_layer l)\<rparr>) layers"
    using assms by (auto simp: providerStage_def)
  then show ?thesis by simp
next
  case False
  then have "fst (translateWithAzure B azure layers loc) = Inr res"
    using assms by (simp add: providerStage_def)
  then show ?thesis by (rule translateWithAzure_ids)
qed

lemma translateRequest_ids:
  assumes "translateRequest B azure openai k rc (Body p) = (response, calls)"
    and "resp_body response = Translations ts"
    and "textLayers p = Layers layers"
  shows "map (map_option id_result) ts = map (\<lambda>l. Some (id_layer l)) layers"
proof -
  from assms obtain loc res c1 c2 where
    p: "providerStage B azure layers loc = (Inr res, c1)"
    and r: "refineWithLLM B k openai res = (ts, c2)"
    by (auto simp: translateRequest_def invalidRequest_def translationError_def
             split: if_splits option.splits json.splits prod.splits sum.splits)
  have ts: "ts = fst (refineWithLLM B k openai res)" using r by simp
  have "fst (providerStage B azure layers loc) = Inr res" using p by simp
  then show ?thesis unfolding ts refineWithLLM_ids by (rule providerStage_ids)
qed

lemma fetch_translations:
  assumes "fetch B azure openai now request e = (response, store, calls)"
    and "resp_body response = Translations ts"
  shows "\<exists>rc. translateRequest B azure openai (OPENAI_API_KEY e) rc (body request) = (response, calls)"
  using assms
  by (auto simp: fetch_def rateLimited_def split: if_splits prod.splits)

lemma distinct_map_Some: "distinct (map Some xs) = distinct xs"
  by (simp add: distinct_map)

text \<open>
  Claim C1. Whenever the handler answers with translations, the response has one result
  for each item of the request, in the order of the request, and no slot is left empty:
  the ids of the response are the ids of the request, each as often as there (once when
  the request's ids are unique), whichever stage produced the text.
\<close>

theorem response_ids_are_the_request_ids:
  assumes "fetch B azure openai now request e = (response, store, calls)"
    and "resp_body response = Translations ts"
    and "body request = Body p"
    and "textLayers p = Layers layers"
  shows "None \<notin> set ts
       \<and> map (map_option id_result) ts = map (\<lambda>l. Some (id_layer l)) layers
       \<and> mset (map (map_option id_result) ts) = mset (map (\<lambda>l. Some (id_layer l)) layers)
       \<and> distinct (map (map_option id_result) ts) = distinct (map id_layer layers)"
proof -
  obtain rc where "translateRequest B azure openai (OPENAI_API_KEY e) rc (Body p) = (response, calls)"
    using fetch_translations [OF assms(1,2)] assms(3) by auto
  from translateRequest_ids [OF this assms(2,4)]
  have ids: "map (map_option id_result) ts = map (\<lambda>l. Some (id_layer l)) layers" .
  have "None \<notin> set (map (map_option id_result) ts)" unfolding ids by auto
  then have filled: "None \<notin> set ts" by force
  have "distinct (map Some (map id_layer layers)) = distinct (map id_layer layers)"
    by (rule distinct_map_Some)
  then have "distinct (map (\<lambda>l. Some (id_layer l)) layers) = distinct (map id_layer layers)"
    by (simp add: comp_def)
  then show ?thesis using ids filled by simp
qed

section \<open>Refinement never fails the request\<close>

lemma refineWithLLM_via_list:
  "refineWithLLM B openaiKey openai azureResults =
     (if falsy_secret openaiKey then (azureResults, [])
      else (case llmList B openai of
              None \<Rightarrow> azureResults
            | Some refined \<Rightarrow>
                (case mergeById refined azureResults of Inl e \<Rightarrow> azureResults | Inr merged \<Rightarrow> merged),
            [OpenAICall]))"
  by (simp add: refineWithLLM_def llmList_def falsy_secret_def
           split: fetch_outcome.split option.split sum.split json.split)

lemma refineWithLLM_fallback:
  "falsy_secret openaiKey \<or> llmList B openai = None \<Longrightarrow>
   fst (refineWithLLM B openaiKey openai azureResults) = azureResults"
  by (auto simp: refineWithLLM_via_list)

lemma refineWithLLM_list:
  "\<not> falsy_secret openaiKey \<Longrightarrow> llmList B openai = Some refined \<Longrightarrow>
   refineWithLLM B openaiKey openai azureResults =
     (case mergeById refined azureResults of Inl e \<Rightarrow> azureResults | Inr merged \<Rightarrow> merged,
      [OpenAICall])"
  by (simp add: refineWithLLM_via_list)

lemma collectRefined_isl: "isl (collectRefined refined m) = (JNull \<in> set refined)"
  by (induction refined arbitrary: m) (auto split: option.splits json.splits)

lemma mergeById_isl: "isl (mergeById refined azureResults) = (JNull \<in> set refined)"
  using collectRefined_isl [of refined Map.empty]
  by (cases "collectRefined refined Map.empty") (simp_all add: mergeById_def)

lemma collectRefined_lookup:
  "collectRefined refined m = Inr m' \<Longrightarrow>
   m' k = (case refinedText refined k of Some t \<Rightarrow> Some t | None \<Rightarrow> m k)"
proof (induction refined arbitrary: m)
  case Nil
  then show ?case by simp
next
  case (Cons r rest)
  have nn: "r \<noteq> JNull" using Cons.prems by (auto split: if_splits)
  show ?case
  proof (cases "\<exists>k' t. k' \<noteq> [] \<and> member (js ''id'') r = Some (JStr k')
                        \<and> member (js ''translated'') r = Some (JStr t)")
    case True
    then obtain k' t where k': "k' \<noteq> []" "member (js ''id'') r = Some (JStr k')"
      "member (js ''translated'') r = Some (JStr t)" by blast
    then have "collectRefined rest (m(k' \<mapsto> t)) = Inr m'" using Cons.prems nn by simp
    from Cons.IH [OF this] show ?thesis using k'
      by (auto split: option.splits)
  next
    case False
    then have "collectRefined rest m = Inr m'" using Cons.prems nn
      by (auto split: if_splits option.splits json.splits)
    from Cons.IH [OF this] show ?thesis using False
      by (auto split: option.splits json.splits)
  qed
qed

lemma mergeById_Inr:
  assumes "mergeById refined azureResults = Inr merged"
  shows "merged =
     map (map_option (\<lambda>r.
            \<lparr>id_result = id_result r,
             translated = (case refinedText refined (id_result r) of
                             Some t \<Rightarrow> if t \<noteq> [] then Str t else translated r
                           | None \<Rightarrow> translated r)\<rparr>))
         azureResults"
proof -
  obtain m where m: "collectRefined refined Map.empty = Inr m"
    and merged: "merged = mergeRefined m azureResults"
    using assms by (auto simp: mergeById_def split: sum.splits)
  have "\<And>k. m k = refinedText refined k"
    using collectRefined_lookup [OF m] by (simp split: option.splits)
  then show ?thesis unfolding merged mergeRefined_def by simp
qed


lemma fetch_refined:
  assumes "http_method request = js ''POST''"
    and "\<not> falsy_secret (AZURE_TRANSLATOR_KEY e)" "\<not> falsy_secret (AZURE_TRANSLATOR_REGION e)"
    and "allowed (fst (checkRateLimit (RATE_LIMIT e) now (userIdOf request)))"
    and "body request = Body p" "textLayers p = Layers layers" "targetLocale p = Some (JStr loc)"
    and "loc \<noteq> []"
    and "fst (providerStage B azure layers loc) = Inr provided"
  shows "resp_body (fst (fetch B azure openai now request e)) =
           Translations (fst (refineWithLLM B (OPENAI_API_KEY e) openai provided))"
proof -
  have c: "checkRateLimit (RATE_LIMIT e) now (userIdOf request) =
          (fst (checkRateLimit (RATE_LIMIT e) now (userIdOf request)),
           snd (checkRateLimit (RATE_LIMIT e) now (userIdOf request)))" by simp
  have v: "\<not> invalidPayload p" using assms(6,7,8) by (simp add: invalidPayload_def)
  have "resp_body (fst (translateRequest B azure openai (OPENAI_API_KEY e)
                     (fst (checkRateLimit (RATE_LIMIT e) now (userIdOf request))) (Body p))) =
        Translations (fst (refineWithLLM B (OPENAI_API_KEY e) openai provided))"
    using v assms(6,7,9)
    by (auto simp: translateRequest_def split: prod.splits)
  then show ?thesis
    using fetch_admitted [OF assms(1-3) c assms(4)] assms(5) by simp
qed

text \<open>
  Claim C5. When no refinement credential is configured, and when the refinement call
  throws, answers with a non-success status, or returns content that does not parse to a
  list, \<^verbatim>\<open>refineWithLLM\<close> returns the provider results it was given, and the response of
  the handler carries exactly the output of the provider stage.
\<close>

theorem refinement_falls_back_to_provider_results:
  assumes fails: "falsy_secret (OPENAI_API_KEY e) \<or> llmList B openai = None"
    and "http_method request = js ''POST''"
    and "\<not> falsy_secret (AZURE_TRANSLATOR_KEY e)" "\<not> falsy_secret (AZURE_TRANSLATOR_REGION e)"
    and "allowed (fst (checkRateLimit (RATE_LIMIT e) now (userIdOf request)))"
    and "body request = Body p" "textLayers p = Layers layers" "targetLocale p = Some (JStr loc)"
    and "loc \<noteq> []"
    and "fst (providerStage B azure layers loc) = Inr provided"
  shows "fst (refineWithLLM B (OPENAI_API_KEY e) openai azureResults) = azureResults
       \<and> resp_body (fst (fetch B azure openai now request e)) = Translations provided"
proof -
  have 1: "\<And>rs. fst (refineWithLLM B (OPENAI_API_KEY e) openai rs) = rs"
    using fails by (rule refineWithLLM_fallback)
  from fetch_refined [OF assms(2-10)] show ?thesis using 1 by simp
qed


lemma provider_sample:
  "providerStage (engine []) azure_reply sample_layers (js ''fr'') =
     (Inr sample_results, [AzureCall (js ''fr'') [js ''[Heading] Welcome'']])"
proof -
  have "js ''fr'' \<noteq> js ''en'' \<and> take 3 (js ''fr'') \<noteq> js ''en-''" by (simp add: js_def)
  then show ?thesis by (simp add: providerStage_def translate_sample sample_results_def)
qed

lemma fr_payload_fields:
  "textLayers fr_payload = Layers sample_layers"
  "targetLocale fr_payload = Some (JStr (js ''fr''))"
  by (simp_all add: fr_payload_def)

lemma content_prose:
  "llmContent (JObj [(js ''choices'',
                     JArr [JObj [(js ''message'', JObj [(js ''content'', JStr (js '' Sure! ''))])]])]) =
     Inr (Some (js ''Sure!''))"
proof -
  have "trim (js '' Sure! '') = js ''Sure!''"
    by (simp add: trim_def trimEnd_def js_def isWhiteSpace_def)
  then show ?thesis by (simp add: llmContent_def)
qed

lemma llmList_prose: "llmList (engine []) openai_prose = None"
  by (simp add: llmList_def openai_prose_def content_prose engine_def)

text \<open>
  The theorem at the French example with a refinement credential, once with a refinement
  service that answers with status 500 and once with one whose content is prose.
\<close>

theorem refinement_falls_back_to_provider_results_witness:
  "fst (refineWithLLM (engine []) (Some (js ''sk'')) openai_down sample_results) = sample_results
   \<and> resp_body (fst (fetch (engine []) azure_reply openai_down 0 (sample_request (Body fr_payload))
                        (sample_env Map.empty (Some (js ''sk''))))) = Translations sample_results
   \<and> resp_body (fst (fetch (engine []) azure_reply openai_prose 0 (sample_request (Body fr_payload))
                        (sample_env Map.empty (Some (js ''sk''))))) = Translations sample_results"
proof -
  have 1: "falsy_secret (OPENAI_API_KEY (sample_env Map.empty (Some (js ''sk''))))
           \<or> llmList (engine []) openai_down = None"
    by (simp add: llmList_def openai_down_def)
  have 4: "falsy_secret (OPENAI_API_KEY (sample_env Map.empty (Some (js ''sk''))))
           \<or> llmList (engine []) openai_prose = None"
    by (simp add: llmList_prose)
  have 2: "fst (providerStage (engine []) azure_reply sample_layers (js ''fr'')) = Inr sample_results"
    by (simp add: provider_sample)
  have 3: "js ''fr'' \<noteq> []" by simp
  from refinement_falls_back_to_provider_results [where now = 0 and azureResults = sample_results,
      OF 1 sample_configured(1) sample_configured(3,4)
      sample_admitted sample_configured(2) fr_payload_fields 3 2]
    refinement_falls_back_to_provider_results [where now = 0 and azureResults = sample_results,
      OF 4 sample_configured(1) sample_configured(3,4)
      sample_admitted sample_configured(2) fr_payload_fields 3 2]
  show ?thesis by (simp add: sample_configured)
qed

text \<open>
  The theorem of claim C1 at the French example: \<^verbatim>\<open>a\<close> comes back from the provider,
  \<^verbatim>\<open>b\<close> from the dictionary.
\<close>

theorem response_ids_are_the_request_ids_witness:
  "resp_body (fst (fetch (engine []) azure_reply Rejected 0 (sample_request (Body fr_payload))
                     (sample_env Map.empty None))) = Translations sample_results
   \<and> None \<notin> set sample_results
   \<and> map (map_option id_result) sample_results = [Some (js ''a''), Some (js ''b'')]
   \<and> mset (map (map_option id_result) sample_results) = mset (map (\<lambda>l. Some (id_layer l)) sample_layers)
   \<and> distinct (map (map_option id_result) sample_results)"
proof -
  let ?f = "fetch (engine []) azure_reply Rejected 0 (sample_request (Body fr_payload))
              (sample_env Map.empty None)"
  have 1: "?f = (fst ?f, fst (snd ?f), snd (snd ?f))" by simp
  have p: "fst (providerStage (engine []) azure_reply sample_layers (js ''fr'')) = Inr sample_results"
    by (simp add: provider_sample)
  have n: "js ''fr'' \<noteq> []" by simp
  have k: "falsy_secret (OPENAI_API_KEY (sample_env Map.empty None))
           \<or> llmList (engine []) Rejected = None"
    by (simp add: sample_configured falsy_secret_def)
  have 2: "resp_body (fst ?f) = Translations sample_results"
    using fetch_refined [where e = "sample_env Map.empty None" and now = 0 and openai = Rejected,
        OF sample_configured(1) sample_configured(3,4) sample_admitted
        sample_configured(2) fr_payload_fields n p]
      refineWithLLM_fallback [OF k, of sample_results]
    by simp
  from response_ids_are_the_request_ids [OF 1 2 sample_configured(2) fr_payload_fields(1)]
  show ?thesis using 2 by (simp add: sample_layers_def)
qed

section \<open>The merge by id\<close>

text \<open>
  Two records of one id: a later empty text hides an earlier text, and a later text that
  is not a string does not.
\<close>

lemma refinedText_empty_id: "refinedText refined [] = None"
  by (induction refined) (auto split: option.splits json.splits)

lemma last_string_record_counts:
  "mergeById [JObj [(js ''id'', JStr (js ''a'')), (js ''translated'', JStr (js ''A1''))],
              JObj [(js ''id'', JStr (js ''a'')), (js ''translated'', JStr [])]]
     [Some \<lparr>id_result = js ''a'', translated = Str (js ''Bienvenue'')\<rparr>] =
     Inr [Some \<lparr>id_result = js ''a'', translated = Str (js ''Bienvenue'')\<rparr>]"
  "mergeById [JObj [(js ''id'', JStr (js ''a'')), (js ''translated'', JStr (js ''A1''))],
              JObj [(js ''id'', JStr (js ''a'')), (js ''translated'', JNum 5)]]
     [Some \<lparr>id_result = js ''a'', translated = Str (js ''Bienvenue'')\<rparr>] =
     Inr [Some \<lparr>id_result = js ''a'', translated = Str (js ''A1'')\<rparr>]"
  by (simp_all add: mergeById_def mergeRefined_def)

text \<open>
  Claim C6, as the code has it. The merge of a parsed list without a \<^verbatim>\<open>null\<close> element
  emits one element per provider result, with the same ids in the same order. For a
  result, the record that counts is the last record of the list that carries the id of
  the result and a string as its text (\<open>refinedText\<close>): when there is such a record
  and its text is not empty, the result carries that text; when there is none, or its
  text is the empty string, the result keeps its provider translation. Records whose
  text is not a string are passed over, and an empty id has no record
  (\<open>refinedText_empty_id\<close>). (A \<^verbatim>\<open>null\<close> element makes the merge throw, by
  \<open>mergeById_isl\<close>, and \<^verbatim>\<open>refineWithLLM\<close> then returns the provider results.)
\<close>

theorem merge_by_id_keeps_every_result:
  assumes "mergeById refined azureResults = Inr merged"
    and "j < length azureResults" and "azureResults ! j = Some r"
  shows "length merged = length azureResults
       \<and> map (map_option id_result) merged = map (map_option id_result) azureResults
       \<and> merged ! j =
           Some \<lparr>id_result = id_result r,
                 translated = (case refinedText refined (id_result r) of
                                 None \<Rightarrow> translated r
                               | Some t \<Rightarrow> if t = [] then translated r else Str t)\<rparr>"
proof -
  note m = mergeById_Inr [OF assms(1)]
  have "length merged = length azureResults" unfolding m by simp
  moreover have "map (map_option id_result) merged = map (map_option id_result) azureResults"
    unfolding m by (simp add: option.map_comp comp_def)
  moreover have "merged ! j =
           Some \<lparr>id_result = id_result r,
                 translated = (case refinedText refined (id_result r) of
                                 None \<Rightarrow> translated r
                               | Some t \<Rightarrow> if t = [] then translated r else Str t)\<rparr>"
    unfolding m using assms(2,3) by (simp split: option.splits)
  ultimately show ?thesis by simp
qed

lemma refined_sample:
  "refinedText sample_refined (js ''a'') = Some []"
  "refinedText sample_refined (js ''b'') = Some (js ''JANV.'')"
  by (simp_all add: sample_refined_def)

lemma collect_sample:
  "collectRefined sample_refined Map.empty =
     Inr [js ''a'' \<mapsto> [], js ''b'' \<mapsto> js ''JANV.'']"
  by (simp add: sample_refined_def)

lemma merge_sample:
  "mergeById sample_refined sample_results =
     Inr [Some \<lparr>id_result = js ''a'', translated = Str (js ''Bienvenue'')\<rparr>,
          Some \<lparr>id_result = js ''b'', translated = Str (js ''JANV.'')\<rparr>]"
  by (simp add: mergeById_def collect_sample mergeRefined_def sample_results_def)

text \<open>
  The theorem at the French example and a list that empties \<^verbatim>\<open>a\<close> and rewrites \<^verbatim>\<open>b\<close>.
\<close>

theorem merge_by_id_keeps_every_result_witness:
  "mergeById sample_refined sample_results =
     Inr [Some \<lparr>id_result = js ''a'', translated = Str (js ''Bienvenue'')\<rparr>,
          Some \<lparr>id_result = js ''b'', translated = Str (js ''JANV.'')\<rparr>]
   \<and> [Some \<lparr>id_result = js ''a'', translated = Str (js ''Bienvenue'')\<rparr>,
       Some \<lparr>id_result = js ''b'', translated = Str (js ''JANV.'')\<rparr>] ! 1 =
       Some \<lparr>id_result = js ''b'', translated = Str (js ''JANV.'')\<rparr>"
proof -
  have j: "1 < length sample_results" by (simp add: sample_results_def)
  have r: "sample_results ! 1 = Some \<lparr>id_result = js ''b'', translated = Str (js ''JANV'')\<rparr>"
    by (simp add: sample_results_def)
  from merge_by_id_keeps_every_result [OF merge_sample j r]
  show ?thesis by (simp add: merge_sample refined_sample)
qed

text \<open>
  Claim C6 as stated fails: the id \<^verbatim>\<open>a\<close> appears in the refinement list with the text
  \<^verbatim>\<open>""\<close>, and the merged result for \<^verbatim>\<open>a\<close> carries the provider's \<^verbatim>\<open>Bienvenue\<close>, not the
  refined text.
\<close>

theorem refined_text_always_wins_counterexample:
  "mergeById [JObj [(js ''id'', JStr (js ''a'')), (js ''translated'', JStr [])]]
     [Some \<lparr>id_result = js ''a'', translated = Str (js ''Bienvenue'')\<rparr>] =
     Inr [Some \<lparr>id_result = js ''a'', translated = Str (js ''Bienvenue'')\<rparr>]
   \<and> Str (js ''Bienvenue'') \<noteq> Str []"
  by (simp add: mergeById_def mergeRefined_def)

text \<open>
  Claim C10. When the lookup built from the refinement list maps the id of a provider
  result to the empty string, the merged output holds that provider result unchanged,
  although the list has a record for the id.
\<close>

theorem empty_refined_text_counts_as_absent:
  assumes "collectRefined refined Map.empty = Inr refinedMap"
    and "refinedMap (id_result r) = Some []"
    and "j < length azureResults" and "azureResults ! j = Some r"
  shows "mergeById refined azureResults = Inr (mergeRefined refinedMap azureResults)
       \<and> mergeRefined refinedMap azureResults ! j = Some r
       \<and> refinedText refined (id_result r) = Some []"
proof -
  have 1: "mergeById refined azureResults = Inr (mergeRefined refinedMap azureResults)"
    using assms(1) by (simp add: mergeById_def)
  have 2: "mergeRefined refinedMap azureResults ! j = Some r"
    using assms(2-4) by (simp add: mergeRefined_def)
  have 3: "refinedText refined (id_result r) = Some []"
    using collectRefined_lookup [OF assms(1), of "id_result r"] assms(2)
    by (simp split: option.splits)
  show ?thesis using 1 2 3 by simp
qed

text \<open>
  The theorem at the French example, where the list empties \<^verbatim>\<open>a\<close>.
\<close>

theorem empty_refined_text_counts_as_absent_witness:
  "mergeById sample_refined sample_results =
     Inr (mergeRefined [js ''a'' \<mapsto> [], js ''b'' \<mapsto> js ''JANV.''] sample_results)
   \<and> mergeRefined [js ''a'' \<mapsto> [], js ''b'' \<mapsto> js ''JANV.''] sample_results ! 0 =
       Some \<lparr>id_result = js ''a'', translated = Str (js ''Bienvenue'')\<rparr>
   \<and> refinedText sample_refined (js ''a'') = Some []"
proof -
  have m: "[js ''a'' \<mapsto> [], js ''b'' \<mapsto> js ''JANV.'']
             (id_result \<lparr>id_result = js ''a'', translated = Str (js ''Bienvenue'')\<rparr>) = Some []"
    by simp
  have j: "0 < length sample_results" by (simp add: sample_results_def)
  have r: "sample_results ! 0 = Some \<lparr>id_result = js ''a'', translated = Str (js ''Bienvenue'')\<rparr>"
    by (simp add: sample_results_def)
  from empty_refined_text_counts_as_absent [OF collect_sample m j r]
  show ?thesis by (simp only: TranslationResult.select_convs)
qed

end
